theory Spec2Isabelle
  imports Complex_Main "HOL-Library.Sublist"
begin

section \<open>Data model of the client (src/client/client.ts)\<close>

text \<open>
  The class \<open>QuasarClient\<close> signs a transaction, sends its serialized bytes, keeps
  resending them from a detached loop, waits for the confirmation, and on failure asks
  the endpoint for a simulation to build the error message.

  Transaction objects are mutable and passed by reference, so they live in a store
  (\<open>heap\<close>) indexed by object identity. What the web3 library does inside
  \<open>setSigners\<close>, \<open>partialSign\<close> and \<open>sign\<close> is not part of this repository: a
  transaction object records the field the client assigns and, in order, the method
  calls it has received. Serialization is a parameter.
\<close>

type_synonym ref = nat
type_synonym pubkey = string
type_synonym bytes = "nat list"
type_synonym txid = string

text \<open>
  A thrown value is either an \<open>Error\<close> the client itself creates with
  \<open>new Error(msg)\<close>, or a value thrown by a collaborator; of the latter the client
  reads only the truthiness of its \<open>timeout\<close> property. A collaborator is taken to
  throw an object or a string, on which reading a property does not itself throw.
\<close>

datatype error = Error string | Thrown bool string

fun timeout_of :: "error \<Rightarrow> bool" where
  "timeout_of (Error m) = False"
| "timeout_of (Thrown t d) = t"

record account =
  publicKey :: pubkey
  secretKey :: bytes

text \<open>
  \<open>payer: Account | WalletAdapter\<close>. Of a wallet the client reads \<open>publicKey\<close>
  and \<open>connected\<close>; an \<open>Account\<close> has no \<open>connected\<close> property, so
  \<open>payer?.connected\<close> is \<open>undefined\<close> (falsy) for it.
\<close>

datatype payer = Account account | WalletAdapter pubkey bool

fun payer_publicKey :: "payer \<Rightarrow> pubkey" where
  "payer_publicKey (Account a) = publicKey a"
| "payer_publicKey (WalletAdapter pk c) = pk"

fun payer_connected :: "payer \<Rightarrow> bool" where
  "payer_connected (Account a) = False"
| "payer_connected (WalletAdapter pk c) = c"

fun instanceof_Account :: "payer \<Rightarrow> bool" where
  "instanceof_Account (Account a) = True"
| "instanceof_Account (WalletAdapter pk c) = False"

text \<open>
  The argument list of \<open>transaction.sign(...[payer].concat(signers))\<close> holds the
  payer object and the signers; an element is \<open>None\<close> where the JavaScript array holds
  \<open>undefined\<close> (\<open>[payer].concat(undefined)\<close> is \<open>[payer, undefined]\<close>).
\<close>

datatype tx_call =
    SetSigners "pubkey list"
  | PartialSign "account list"
  | Sign "payer option list"

record transaction =
  instructions :: "string list"
  recentBlockhash :: "string option"
  calls :: "tx_call list"

type_synonym heap = "ref \<Rightarrow> transaction"

definition call_method :: "ref \<Rightarrow> tx_call \<Rightarrow> heap \<Rightarrow> heap" where
  "call_method r c h = h(r := (h r)\<lparr>calls := calls (h r) @ [c]\<rparr>)"

text \<open>The on-chain error payload of a simulation (\<open>TransactionError | null\<close>) and its truthiness.\<close>

datatype transaction_error = ErrNull | ErrString string | ErrObject string

fun truthy :: "transaction_error \<Rightarrow> bool" where
  "truthy ErrNull = False"
| "truthy (ErrString s) = (s \<noteq> [])"
| "truthy (ErrObject d) = True"

record simulated =
  err :: transaction_error
  logs :: "string list option"

text \<open>Everything observable the client does, in the order it does it.\<close>

datatype event =
    GetRecentBlockhash "string option"
  | WalletSignTransaction ref
  | WalletSignAllTransactions "ref list"
  | PostSignTxCallback
  | SendRawTransaction bytes bool
  | Sleep nat
  | AwaitConfirmation txid rat string
  | SimulateTransaction ref string
  | SetDone

text \<open>
  The collaborators: the connection, the wallet, the library's serializer, the clock and
  the helpers imported from \<open>./utils\<close> (\<open>awaitTransactionSignatureConfirmation\<close>,
  \<open>simulateTransaction\<close>), each given by its outcome. A wallet may change any object
  of the store and returns a reference of its own choice. \<open>transaction_sign\<close> is the
  outcome of the library's \<open>transaction.sign(...)\<close> on an object and an argument list:
  \<open>None\<close> when it returns, the value thrown when it throws. The library's
  \<open>setSigners\<close> and \<open>partialSign\<close> are taken to return: they are given the
  payer's public key and accounts that hold their secret keys.
\<close>

record env =
  getRecentBlockhash :: "error + string"
  transaction_sign :: "transaction \<Rightarrow> payer option list \<Rightarrow> error option"
  wallet_signTransaction :: "heap \<Rightarrow> ref \<Rightarrow> (error + ref) \<times> heap"
  wallet_signAllTransactions :: "heap \<Rightarrow> ref list \<Rightarrow> (error + ref list) \<times> heap"
  serialize :: "transaction \<Rightarrow> error + bytes"
  sendRawTransaction :: "bytes \<Rightarrow> error + txid"
  startClock :: int
  confirmation :: "error option"
  simulation :: "error + simulated"
  JSON_stringify :: "transaction_error \<Rightarrow> string"

subsection \<open>Numbers\<close>

text \<open>
  A JavaScript number is an IEEE 754 double: a rational here, and every arithmetic
  operation returns the exact result rounded to the nearest double, ties to the even
  significand. \<open>to_double\<close> is that rounding: the magnitude is scaled by powers of two
  until its integer part has 53 bits (\<open>scale_up\<close> stops at the scale \<open>2^-1074\<close> of the
  subnormal numbers), rounded to an integer, and scaled back. Overflow to infinity and
  \<open>NaN\<close> are left out: the numbers of the client are clock readings and timeouts.
\<close>

fun scale_up :: "nat \<Rightarrow> rat \<Rightarrow> rat \<Rightarrow> rat \<times> rat" where
  "scale_up 0 m s = (m, s)"
| "scale_up (Suc n) m s =
     (if m < 4503599627370496 then scale_up n (2 * m) (s / 2) else (m, s))"

fun scale_down :: "nat \<Rightarrow> rat \<Rightarrow> rat \<Rightarrow> rat \<times> rat" where
  "scale_down 0 m s = (m, s)"
| "scale_down (Suc n) m s =
     (if 9007199254740992 \<le> m then scale_down n (m / 2) (2 * s) else (m, s))"

definition round_half_even :: "rat \<Rightarrow> int" where
  "round_half_even m =
     (let f = \<lfloor>m\<rfloor>; d = m - of_int f
      in if d < 1 / 2 then f else if 1 / 2 < d then f + 1 else if even f then f else f + 1)"

definition to_double :: "rat \<Rightarrow> rat" where
  "to_double x =
     (if x = 0 then 0
      else (case scale_up 1074 \<bar>x\<bar> 1 of
              (m1, s1) \<Rightarrow>
                (case scale_down 1024 m1 s1 of
                   (m, s) \<Rightarrow> sgn x * of_int (round_half_even m) * s)))"

text \<open>The operators \<open>/\<close> and \<open>-\<close> on numbers.\<close>

definition double_div :: "rat \<Rightarrow> rat \<Rightarrow> rat" where
  "double_div x y = to_double (x / y)"

definition double_sub :: "rat \<Rightarrow> rat \<Rightarrow> rat" where
  "double_sub x y = to_double (x - y)"

text \<open>
  \<open>getUnixTs\<close>: \<open>new Date().getTime() / 1000\<close>, the clock's milliseconds (an integer)
  divided by 1000.
\<close>

definition getUnixTs :: "int \<Rightarrow> rat" where
  "getUnixTs ms = double_div (of_int ms) 1000"

section \<open>Signing\<close>

text \<open>
  The statements \<open>signTransaction\<close> and the first \<open>forEach\<close> of
  \<open>signTransactions\<close> have in common: assign the blockhash, \<open>setSigners\<close> with the
  payer's key first, and \<open>partialSign\<close> when there are additional signers.
\<close>

definition prepare_transaction :: "string \<Rightarrow> payer \<Rightarrow> account list \<Rightarrow> ref \<Rightarrow> heap \<Rightarrow> heap" where
  "prepare_transaction blockhash payer signers transaction h =
     (let h1 = h(transaction := (h transaction)\<lparr>recentBlockhash := Some blockhash\<rparr>);
          h2 = call_method transaction
                 (SetSigners (payer_publicKey payer # map publicKey signers)) h1
      in if length signers > 0
         then call_method transaction (PartialSign signers) h2 else h2)"

text \<open>
  \<open>signTransaction\<close> returns what the wallet returned on the wallet path and
  \<open>undefined\<close> (\<open>None\<close>) on the local path, with the store and the events issued.
\<close>

definition signTransaction ::
  "env \<Rightarrow> ref \<Rightarrow> payer \<Rightarrow> account list \<Rightarrow> heap \<Rightarrow> (error + ref option) \<times> heap \<times> event list" where
  "signTransaction env transaction payer signers h =
     (case getRecentBlockhash env of
        Inl e \<Rightarrow> (Inl e, h, [GetRecentBlockhash None])
      | Inr blockhash \<Rightarrow>
          let h3 = prepare_transaction blockhash payer signers transaction h
          in if payer_connected payer
             then (case wallet_signTransaction env h3 transaction of
                     (Inl e, h4) \<Rightarrow>
                       (Inl e, h4, [GetRecentBlockhash None, WalletSignTransaction transaction])
                   | (Inr r, h4) \<Rightarrow>
                       (Inr (Some r), h4,
                        [GetRecentBlockhash None, WalletSignTransaction transaction]))
             else (let args = Some payer # map (\<lambda>a. Some (Account a)) signers;
                       h4 = call_method transaction (Sign args) h3
                   in case transaction_sign env (h3 transaction) args of
                        Some e \<Rightarrow> (Inl e, h4, [GetRecentBlockhash None])
                      | None \<Rightarrow> (Inr None, h4, [GetRecentBlockhash None])))"

text \<open>The first \<open>forEach\<close> of \<open>signTransactions\<close>; \<open>signers = []\<close> is the default there.\<close>

fun prepare_each :: "string \<Rightarrow> payer \<Rightarrow> (ref \<times> account list option) list \<Rightarrow> heap \<Rightarrow> heap" where
  "prepare_each blockhash payer [] h = h"
| "prepare_each blockhash payer ((transaction, signers_arg) # rest) h =
     prepare_each blockhash payer rest
       (prepare_transaction blockhash payer
          (case signers_arg of None \<Rightarrow> [] | Some ss \<Rightarrow> ss) transaction h)"

text \<open>
  The second \<open>forEach\<close>: no default, an absent \<open>signers\<close> is concatenated as
  \<open>undefined\<close>. A \<open>sign\<close> that throws ends the iteration.
\<close>

fun sign_each ::
  "env \<Rightarrow> payer \<Rightarrow> (ref \<times> account list option) list \<Rightarrow> heap \<Rightarrow> error option \<times> heap" where
  "sign_each env payer [] h = (None, h)"
| "sign_each env payer ((transaction, signers) # rest) h =
     (let args = Some payer # (case signers of None \<Rightarrow> [None]
                                | Some ss \<Rightarrow> map (\<lambda>a. Some (Account a)) ss);
          h1 = call_method transaction (Sign args) h
      in case transaction_sign env (h transaction) args of
           Some e \<Rightarrow> (Some e, h1)
         | None \<Rightarrow> sign_each env payer rest h1)"

definition signTransactions ::
  "env \<Rightarrow> (ref \<times> account list option) list \<Rightarrow> payer \<Rightarrow> heap
     \<Rightarrow> (error + ref list option) \<times> heap \<times> event list" where
  "signTransactions env transactionsAndSigners payer h =
     (case getRecentBlockhash env of
        Inl e \<Rightarrow> (Inl e, h, [GetRecentBlockhash (Some ''max'')])
      | Inr blockhash \<Rightarrow>
          let h1 = prepare_each blockhash payer transactionsAndSigners h
          in if \<not> instanceof_Account payer
             then (case wallet_signAllTransactions env h1 (map fst transactionsAndSigners) of
                     (Inl e, h2) \<Rightarrow>
                       (Inl e, h2, [GetRecentBlockhash (Some ''max''),
                                    WalletSignAllTransactions (map fst transactionsAndSigners)])
                   | (Inr rs, h2) \<Rightarrow>
                       (Inr (Some rs), h2,
                        [GetRecentBlockhash (Some ''max''),
                         WalletSignAllTransactions (map fst transactionsAndSigners)]))
             else (case sign_each env payer transactionsAndSigners h1 of
                     (Some e, h2) \<Rightarrow> (Inl e, h2, [GetRecentBlockhash (Some ''max'')])
                   | (None, h2) \<Rightarrow> (Inr None, h2, [GetRecentBlockhash (Some ''max'')])))"

section \<open>The failure message\<close>

text \<open>
  \<open>for (let i = logs.length - 1; i >= 0; --i)\<close>: the counter \<open>k\<close> of \<open>scan_logs\<close>
  is \<open>i + 1\<close>, started at \<open>logs.length\<close>; the loop ends without a result at \<open>k = 0\<close>.
\<close>

fun scan_logs :: "string list \<Rightarrow> nat \<Rightarrow> string option" where
  "scan_logs ls 0 = None"
| "scan_logs ls (Suc i) =
     (let line = ls ! i
      in if prefix ''Program log: '' line
         then Some (''Transaction failed: '' @ drop (length ''Program log: '') line)
         else scan_logs ls i)"

text \<open>
  The tail of the \<open>catch\<close> block, from \<open>if (simulateResult && simulateResult.err)\<close> on:
  the message of the \<open>Error\<close> it throws. \<open>simulateResult\<close> is \<open>null\<close> when the
  simulation threw.
\<close>

definition failure_message :: "(transaction_error \<Rightarrow> string) \<Rightarrow> simulated option \<Rightarrow> string" where
  "failure_message stringify simulateResult =
     (case simulateResult of
        None \<Rightarrow> ''Transaction failed''
      | Some r \<Rightarrow>
          if truthy (err r)
          then (case logs r of
                  None \<Rightarrow> stringify (err r)
                | Some ls \<Rightarrow>
                    (case scan_logs ls (length ls) of
                       Some m \<Rightarrow> m
                     | None \<Rightarrow> stringify (err r)))
          else ''Transaction failed'')"

section \<open>One submission: the awaiting caller and the detached loop\<close>

text \<open>
  After the first send the call has two activities: the caller, suspended in
  \<open>await awaitTransactionSignatureConfirmation(...)\<close> and later in
  \<open>await simulateTransaction(...)\<close>, and the detached \<open>async\<close> loop, suspended in
  \<open>await sleep(...)\<close>. JavaScript runs one of them at a time, from one \<open>await\<close> to the
  next; a \<open>tick\<close> says which one the event loop resumes, and for the loop what the clock
  reads then. The flag \<open>done\<close> (field \<open>done_flag\<close>) is \<open>None\<close> until \<open>let done = false\<close> has run.
\<close>

datatype main_pc = AwaitingConfirmation | AwaitingSimulation | Returned txid | Threw error

datatype loop_pc = NotStarted | Sleeping | Exited

datatype tick = MainResume | LoopWake int

datatype completion = Suspended | Normal | Abrupt error

record state =
  heap :: heap
  trace :: "event list"
  done_flag :: "bool option"
  mpc :: main_pc
  lpc :: loop_pc

text \<open>
  The loop resumed after a sleep:
  \<open>while (!done && getUnixTs() - startTime < limit) { send; await sleep(cadence) }\<close>.
  The send is not awaited and its result is not read. A loop that is not sleeping cannot
  be resumed: such a tick changes nothing, as does resuming a caller that has exited.
\<close>

definition broadcast_wake :: "nat \<Rightarrow> rat \<Rightarrow> bytes \<Rightarrow> rat \<Rightarrow> rat \<Rightarrow> state \<Rightarrow> state" where
  "broadcast_wake cadence limit rawTransaction startTime now s =
     (if lpc s \<noteq> Sleeping then s
      else if done_flag s = Some False \<and> double_sub now startTime < limit
           then s\<lparr>trace := trace s @ [SendRawTransaction rawTransaction True, Sleep cadence]\<rparr>
           else s\<lparr>lpc := Exited\<rparr>)"

text \<open>The \<open>catch (err)\<close> block up to its \<open>await\<close>.\<close>

definition catch_block :: "string \<Rightarrow> ref \<Rightarrow> error \<Rightarrow> state \<Rightarrow> completion \<times> state" where
  "catch_block commitment transaction e s =
     (if timeout_of e
      then (Abrupt (Error ''Timed out awaiting confirmation on transaction''), s)
      else (Suspended,
            s\<lparr>trace := trace s @ [SimulateTransaction transaction commitment],
              mpc := AwaitingSimulation\<rparr>))"

text \<open>
  The inner \<open>try\<close> of the \<open>catch\<close> block: \<open>simulateResult\<close> stays \<open>null\<close> when
  \<open>simulateTransaction\<close> throws, and the exception is swallowed.
\<close>

definition simulateResult :: "env \<Rightarrow> simulated option" where
  "simulateResult env = (case simulation env of Inl e \<Rightarrow> None | Inr r \<Rightarrow> Some r)"

text \<open>The \<open>catch\<close> block resumed with the simulation's outcome: it always throws.\<close>

definition after_simulation :: "env \<Rightarrow> completion" where
  "after_simulation env = Abrupt (Error (failure_message (JSON_stringify env) (simulateResult env)))"

definition finally_block :: "state \<Rightarrow> state" where
  "finally_block s = s\<lparr>trace := trace s @ [SetDone], done_flag := Some True\<rparr>"

text \<open>
  The caller resumed: the \<open>try\<close> statement runs to its next \<open>await\<close> or leaves, and
  whenever it leaves, normally or not, the \<open>finally\<close> block runs.
\<close>

definition main_resume :: "env \<Rightarrow> string \<Rightarrow> ref \<Rightarrow> txid \<Rightarrow> state \<Rightarrow> state" where
  "main_resume env commitment transaction txid s =
     (case (case mpc s of
              AwaitingConfirmation \<Rightarrow>
                (case confirmation env of
                   None \<Rightarrow> (Normal, s)
                 | Some e \<Rightarrow> catch_block commitment transaction e s)
            | AwaitingSimulation \<Rightarrow> (after_simulation env, s)
            | Returned t \<Rightarrow> (Suspended, s)
            | Threw e \<Rightarrow> (Suspended, s)) of
        (Suspended, s1) \<Rightarrow> s1
      | (Normal, s1) \<Rightarrow> (finally_block s1)\<lparr>mpc := Returned txid\<rparr>
      | (Abrupt e, s1) \<Rightarrow> (finally_block s1)\<lparr>mpc := Threw e\<rparr>)"

definition submission_step ::
  "nat \<Rightarrow> rat \<Rightarrow> string \<Rightarrow> env \<Rightarrow> ref \<Rightarrow> bytes \<Rightarrow> txid \<Rightarrow> rat \<Rightarrow> state \<Rightarrow> tick \<Rightarrow> state" where
  "submission_step cadence limit commitment env transaction rawTransaction txid startTime s t =
     (case t of
        LoopWake ms \<Rightarrow> broadcast_wake cadence limit rawTransaction startTime (getUnixTs ms) s
      | MainResume \<Rightarrow> main_resume env commitment transaction txid s)"

definition sendTransaction ::
  "env \<Rightarrow> ref \<Rightarrow> payer \<Rightarrow> account list \<Rightarrow> rat option \<Rightarrow> string option \<Rightarrow> (error + unit) option
     \<Rightarrow> tick list \<Rightarrow> heap \<Rightarrow> state" where
  "sendTransaction env transaction payer additionalSigners timeout_arg confirmLevel_arg
       postSignTxCallback ticks h =
     (let timeout = (case timeout_arg of None \<Rightarrow> 30000 | Some t \<Rightarrow> t);
          confirmLevel = (case confirmLevel_arg of None \<Rightarrow> ''processed'' | Some l \<Rightarrow> l)
      in case signTransaction env transaction payer additionalSigners h of
           (Inl e, h1, evs) \<Rightarrow>
             \<lparr>heap = h1, trace = evs, done_flag = None, mpc = Threw e, lpc = NotStarted\<rparr>
         | (Inr ignored, h1, evs) \<Rightarrow>
             (case serialize env (h1 transaction) of
                Inl e \<Rightarrow>
                  \<lparr>heap = h1, trace = evs, done_flag = None, mpc = Threw e, lpc = NotStarted\<rparr>
              | Inr rawTransaction \<Rightarrow>
                  let startTime = getUnixTs (startClock env);
                      evs1 = evs @ (case postSignTxCallback of
                                      None \<Rightarrow> [] | Some r \<Rightarrow> [PostSignTxCallback])
                               @ [SendRawTransaction rawTransaction True]
                  in (case sendRawTransaction env rawTransaction of
                        Inl e \<Rightarrow>
                          \<lparr>heap = h1, trace = evs1, done_flag = None, mpc = Threw e,
                           lpc = NotStarted\<rparr>
                      | Inr txid \<Rightarrow>
                          foldl (submission_step 2000 (double_div timeout 1000) ''processed'' env
                                   transaction rawTransaction txid startTime)
                            \<lparr>heap = h1,
                             trace = evs1 @ [Sleep 1000,
                                             AwaitConfirmation txid timeout confirmLevel],
                             done_flag = Some False, mpc = AwaitingConfirmation,
                             lpc = Sleeping\<rparr>
                            ticks)))"

definition sendSignedTransaction ::
  "env \<Rightarrow> ref \<Rightarrow> rat option \<Rightarrow> string option \<Rightarrow> tick list \<Rightarrow> heap \<Rightarrow> state" where
  "sendSignedTransaction env signedTransaction timeout_arg confirmLevel_arg ticks h =
     (let timeout = (case timeout_arg of None \<Rightarrow> 30000 | Some t \<Rightarrow> t);
          confirmLevel = (case confirmLevel_arg of None \<Rightarrow> ''processed'' | Some l \<Rightarrow> l)
      in case serialize env (h signedTransaction) of
           Inl e \<Rightarrow> \<lparr>heap = h, trace = [], done_flag = None, mpc = Threw e, lpc = NotStarted\<rparr>
         | Inr rawTransaction \<Rightarrow>
             let startTime = getUnixTs (startClock env)
             in (case sendRawTransaction env rawTransaction of
                   Inl e \<Rightarrow>
                     \<lparr>heap = h, trace = [SendRawTransaction rawTransaction True],
                      done_flag = None, mpc = Threw e, lpc = NotStarted\<rparr>
                 | Inr txid \<Rightarrow>
                     foldl (submission_step 500 timeout ''single'' env signedTransaction
                              rawTransaction txid startTime)
                       \<lparr>heap = h,
                        trace = [SendRawTransaction rawTransaction True, Sleep 500,
                                 AwaitConfirmation txid timeout confirmLevel],
                        done_flag = Some False, mpc = AwaitingConfirmation, lpc = Sleeping\<rparr>
                       ticks))"

section \<open>The batch\<close>

text \<open>
  \<open>Promise.all\<close> over the promises of the slots. The promises settle one at a time, in
  some order; \<open>promise_all_settle\<close> is the reaction of the combined promise to one
  settlement. A fulfilment stores the value at the slot's index and fulfils the combined
  promise once every index is filled; a rejection rejects it; a settled combined promise
  never changes.
\<close>

datatype 'a promise = Pending | Fulfilled 'a | Rejected error

fun promise_all_settle ::
  "'a option list \<times> 'a list promise \<Rightarrow> nat \<times> (error + 'a) \<Rightarrow> 'a option list \<times> 'a list promise" where
  "promise_all_settle (values, p) (i, Inl e) =
     (values, (case p of Pending \<Rightarrow> Rejected e | Fulfilled vs \<Rightarrow> p | Rejected e' \<Rightarrow> p))"
| "promise_all_settle (values, p) (i, Inr v) =
     (if i < length values \<and> values ! i = None
      then (let values' = values[i := Some v]
            in (values',
                (case p of
                   Pending \<Rightarrow> if None \<in> set values' then Pending else Fulfilled (map the values')
                 | Fulfilled vs \<Rightarrow> p
                 | Rejected e' \<Rightarrow> p)))
      else (values, p))"

definition promise_all :: "nat \<Rightarrow> (nat \<times> (error + 'a)) list \<Rightarrow> 'a list promise" where
  "promise_all n settlements =
     snd (foldl promise_all_settle
            (replicate n None, if n = 0 then Fulfilled [] else Pending) settlements)"

text \<open>How the promise of one \<open>sendTransaction\<close> call has settled, read off its state.\<close>

fun settlement :: "state \<Rightarrow> (error + txid) option" where
  "settlement s =
     (case mpc s of
        Returned t \<Rightarrow> Some (Inr t)
      | Threw e \<Rightarrow> Some (Inl e)
      | AwaitingConfirmation \<Rightarrow> None
      | AwaitingSimulation \<Rightarrow> None)"

text \<open>
  The settlements of the slots' promises, in the order \<open>order\<close> lists the slots; a
  slot still pending at the end of its schedule takes no part.
\<close>

definition settlements :: "state list \<Rightarrow> nat list \<Rightarrow> (nat \<times> (error + txid)) list" where
  "settlements slots order =
     concat (map (\<lambda>i. if i < length slots
                       then (case settlement (slots ! i) of None \<Rightarrow> [] | Some r \<Rightarrow> [(i, r)])
                       else []) order)"

text \<open>
  \<open>sendTransactions\<close>: slot \<open>i\<close> is the call \<open>sendTransaction(tx, payer,
  additionalSigners, timeout, confirmLevel)\<close> on the \<open>i\<close>-th transaction, with the
  collaborators' outcomes and the schedule of that call; \<open>order\<close> lists the slots in the
  order their promises settle. The calls run interleaved on one store. Every slot is run
  here from the store the batch was called with: a call whose payer signs locally reads
  and writes no object but its own transaction (\<open>sendTransaction_local\<close> below), so
  the interleaving cannot be observed when the transactions of the batch are different
  objects; a wallet is taken to change no transaction of the batch but the one it is asked
  to sign. A batch that lists one object twice is not covered, nor is a list of runs that
  does not give one run to each transaction: the result is \<open>None\<close> there.
\<close>

definition sendTransactions ::
  "(env \<times> tick list) list \<Rightarrow> nat list \<Rightarrow> ref list \<Rightarrow> payer \<Rightarrow> account list \<Rightarrow> rat option
     \<Rightarrow> string option \<Rightarrow> heap \<Rightarrow> (state list \<times> txid list promise) option" where
  "sendTransactions runs order transactions payer additionalSigners timeout_arg
       confirmLevel_arg h =
     (if distinct transactions \<and> length runs = length transactions
      then (let timeout = (case timeout_arg of None \<Rightarrow> 30000 | Some t \<Rightarrow> t);
                confirmLevel = (case confirmLevel_arg of None \<Rightarrow> ''confirmed'' | Some l \<Rightarrow> l);
                slots = map (\<lambda>(tx, (env, ticks)).
                                sendTransaction env tx payer additionalSigners (Some timeout)
                                  (Some confirmLevel) None ticks h)
                            (zip transactions runs)
            in Some (slots, promise_all (length transactions) (settlements slots order)))
      else None)"

section \<open>Reading a trace\<close>

fun is_send :: "event \<Rightarrow> bool" where
  "is_send (SendRawTransaction b f) = True"
| "is_send e = False"

text \<open>The sends issued after \<open>done = true\<close>.\<close>

definition sent_after_done :: "event list \<Rightarrow> event list" where
  "sent_after_done tr = filter is_send (dropWhile (\<lambda>e. e \<noteq> SetDone) tr)"

text \<open>The arguments of the \<open>sleep\<close> calls, in order.\<close>

fun sleeps :: "event list \<Rightarrow> nat list" where
  "sleeps [] = []"
| "sleeps (Sleep n # es) = n # sleeps es"
| "sleeps (e # es) = sleeps es"

text \<open>
  The calls by which a submission broadcasts and watches, in order: the sends, the sleeps
  of the loop and the call of the confirmation watcher.
\<close>

fun is_broadcast :: "event \<Rightarrow> bool" where
  "is_broadcast (SendRawTransaction b f) = True"
| "is_broadcast (Sleep n) = True"
| "is_broadcast (AwaitConfirmation t to lv) = True"
| "is_broadcast e = False"

definition broadcasting :: "event list \<Rightarrow> event list" where
  "broadcasting tr = filter is_broadcast tr"

text \<open>The calls of the confirmation watcher, in order: transaction id, timeout, level.\<close>

fun awaited :: "event list \<Rightarrow> (txid \<times> rat \<times> string) list" where
  "awaited [] = []"
| "awaited (AwaitConfirmation t to lv # es) = (t, to, lv) # awaited es"
| "awaited (e # es) = awaited es"

text \<open>
  Whether a call gets as far as \<open>let done = false\<close>, and with which bytes and
  transaction id: the signing, the serialization and the first send must all succeed.
\<close>

definition first_send :: "env \<Rightarrow> transaction \<Rightarrow> (bytes \<times> txid) option" where
  "first_send env t =
     (case serialize env t of
        Inl e \<Rightarrow> None
      | Inr rawTransaction \<Rightarrow>
          (case sendRawTransaction env rawTransaction of
             Inl e \<Rightarrow> None
           | Inr txid \<Rightarrow> Some (rawTransaction, txid)))"

definition sendTransaction_starts ::
  "env \<Rightarrow> ref \<Rightarrow> payer \<Rightarrow> account list \<Rightarrow> heap \<Rightarrow> (bytes \<times> txid) option" where
  "sendTransaction_starts env transaction payer additionalSigners h =
     (case signTransaction env transaction payer additionalSigners h of
        (Inl e, h1, evs) \<Rightarrow> None
      | (Inr ignored, h1, evs) \<Rightarrow> first_send env (h1 transaction))"

definition sendSignedTransaction_starts :: "env \<Rightarrow> ref \<Rightarrow> heap \<Rightarrow> (bytes \<times> txid) option" where
  "sendSignedTransaction_starts env signedTransaction h = first_send env (h signedTransaction)"

text \<open>
  What holds of a submission from \<open>let done = false\<close> on, whatever the event loop
  resumes next: every send carries the bytes serialized once and \<open>skipPreflight: true\<close>,
  every simulation is of the submitted transaction, and the caller's position determines
  the flag, the trace and the result.
\<close>

fun send_ok :: "bytes \<Rightarrow> event \<Rightarrow> bool" where
  "send_ok rawTransaction (SendRawTransaction b f) = (b = rawTransaction \<and> f)"
| "send_ok rawTransaction e = True"

fun simulate_ok :: "ref \<Rightarrow> string \<Rightarrow> event \<Rightarrow> bool" where
  "simulate_ok transaction commitment (SimulateTransaction r c) =
     (r = transaction \<and> c = commitment)"
| "simulate_ok transaction commitment e = True"

fun main_inv :: "string \<Rightarrow> env \<Rightarrow> ref \<Rightarrow> txid \<Rightarrow> main_pc \<Rightarrow> bool option \<Rightarrow> event list \<Rightarrow> bool" where
  "main_inv commitment env transaction txid AwaitingConfirmation d tr =
     (d = Some False \<and> SetDone \<notin> set tr \<and>
      SimulateTransaction transaction commitment \<notin> set tr)"
| "main_inv commitment env transaction txid AwaitingSimulation d tr =
     (d = Some False \<and> SetDone \<notin> set tr \<and>
      SimulateTransaction transaction commitment \<in> set tr \<and>
      (case confirmation env of None \<Rightarrow> False | Some e \<Rightarrow> \<not> timeout_of e))"
| "main_inv commitment env transaction txid (Returned t) d tr =
     (d = Some True \<and> count_list tr SetDone = 1 \<and> sent_after_done tr = [] \<and>
      t = txid \<and> confirmation env = None \<and>
      SimulateTransaction transaction commitment \<notin> set tr)"
| "main_inv commitment env transaction txid (Threw x) d tr =
     (d = Some True \<and> count_list tr SetDone = 1 \<and> sent_after_done tr = [] \<and>
      (case confirmation env of
         None \<Rightarrow> False
       | Some e \<Rightarrow>
           if timeout_of e
           then x = Error ''Timed out awaiting confirmation on transaction'' \<and>
                SimulateTransaction transaction commitment \<notin> set tr
           else x = Error (failure_message (JSON_stringify env) (simulateResult env)) \<and>
                SimulateTransaction transaction commitment
                  \<in> set (takeWhile (\<lambda>e. e \<noteq> SetDone) tr)))"

definition submission_inv :: "string \<Rightarrow> env \<Rightarrow> ref \<Rightarrow> bytes \<Rightarrow> txid \<Rightarrow> state \<Rightarrow> bool" where
  "submission_inv commitment env transaction rawTransaction txid s \<longleftrightarrow>
     serialize env (heap s transaction) = Inr rawTransaction \<and>
     sendRawTransaction env rawTransaction = Inr txid \<and>
     lpc s \<noteq> NotStarted \<and>
     list_all (send_ok rawTransaction) (trace s) \<and>
     list_all (simulate_ok transaction commitment) (trace s) \<and>
     main_inv commitment env transaction txid (mpc s) (done_flag s) (trace s)"

text \<open>A call that threw before \<open>let done = false\<close>: there is no flag and no loop.\<close>

definition failed_before_flag :: "env \<Rightarrow> ref \<Rightarrow> state \<Rightarrow> bool" where
  "failed_before_flag env transaction s \<longleftrightarrow>
     done_flag s = None \<and> lpc s = NotStarted \<and> (\<exists>e. mpc s = Threw e) \<and>
     SetDone \<notin> set (trace s) \<and> sleeps (trace s) = [] \<and>
     (\<forall>r c. SimulateTransaction r c \<notin> set (trace s)) \<and>
     (\<forall>b f. SendRawTransaction b f \<in> set (trace s) \<longrightarrow>
        serialize env (heap s transaction) = Inr b \<and> f \<and>
        (\<exists>e. sendRawTransaction env b = Inl e))"

text \<open>The call has exited: its promise is settled.\<close>

fun exited :: "main_pc \<Rightarrow> bool" where
  "exited AwaitingConfirmation = False"
| "exited AwaitingSimulation = False"
| "exited (Returned t) = True"
| "exited (Threw e) = True"

fun returned :: "main_pc \<Rightarrow> bool" where
  "returned (Returned t) = True"
| "returned AwaitingConfirmation = False"
| "returned AwaitingSimulation = False"
| "returned (Threw e) = False"

fun threw :: "main_pc \<Rightarrow> bool" where
  "threw (Threw e) = True"
| "threw AwaitingConfirmation = False"
| "threw AwaitingSimulation = False"
| "threw (Returned t) = False"

fun is_wallet_sign :: "event \<Rightarrow> bool" where
  "is_wallet_sign (WalletSignTransaction r) = True"
| "is_wallet_sign (WalletSignAllTransactions rs) = True"
| "is_wallet_sign e = False"

section \<open>Concrete collaborators\<close>

text \<open>
  An endpoint that accepts the transaction and then reports an on-chain failure, with the
  simulation logs of a failed transfer; a wallet that signs a copy of the transaction and
  returns the copy, leaving the object it was given as it was; a library whose \<open>sign\<close>
  throws unless it is given at least one signer and every signer holds a secret key, which
  \<open>undefined\<close> and a wallet adapter do not.
\<close>

fun holds_secretKey :: "payer option \<Rightarrow> bool" where
  "holds_secretKey (Some (Account a)) = True"
| "holds_secretKey (Some (WalletAdapter pk c)) = False"
| "holds_secretKey None = False"

definition example_account :: account where
  "example_account = \<lparr>publicKey = ''signer'', secretKey = [7]\<rparr>"

definition example_heap :: heap where
  "example_heap = (\<lambda>r. \<lparr>instructions = [], recentBlockhash = None, calls = []\<rparr>)"

definition example_env :: env where
  "example_env =
     \<lparr>getRecentBlockhash = Inr ''blockhash'',
      transaction_sign =
        (\<lambda>t args. if args \<noteq> [] \<and> list_all holds_secretKey args then None
                   else Some (Thrown False ''TypeError'')),
      wallet_signTransaction =
        (\<lambda>h r. (Inr (Suc r),
                 h(Suc r := (h r)\<lparr>calls := calls (h r) @ [Sign [Some (WalletAdapter ''wallet'' True)]]\<rparr>))),
      wallet_signAllTransactions = (\<lambda>h rs. (Inr rs, h)),
      serialize = (\<lambda>t. Inr [length (calls t)]),
      sendRawTransaction = (\<lambda>b. Inr ''sig''),
      startClock = 0,
      confirmation = Some (Thrown False ''InstructionError''),
      simulation =
        Inr \<lparr>err = ErrObject ''InstructionError'',
             logs = Some [''Program log: step1'', ''Program log: insufficient funds'',
                          ''Program consumed 100 units'']\<rparr>,
      JSON_stringify = (\<lambda>e. ''{InstructionError:[0,{Custom:1}]}'')\<rparr>"

text \<open>How far the caller has got: each resumption takes it at least one step further.\<close>

fun rank :: "main_pc \<Rightarrow> nat" where
  "rank AwaitingConfirmation = 0"
| "rank AwaitingSimulation = 1"
| "rank (Returned t) = 2"
| "rank (Threw e) = 2"

text \<open>
  The discipline of the flag in the state \<open>S\<close> a call has reached under the schedule
  \<open>ticks\<close>, \<open>started\<close> telling whether the call gets as far as
  \<open>let done = false\<close>. The flag exists exactly if the call got there; a call that
  did not has thrown and has started no loop. \<open>done = true\<close> has run once if the
  flag is true and never otherwise, and the flag is true exactly if the call got as far
  as the flag and has exited, by returning or by throwing; nothing is sent after
  \<open>done = true\<close>; and two resumptions of the caller are enough for it to exit.
\<close>

definition done_exactly_once :: "tick list \<Rightarrow> bool \<Rightarrow> state \<Rightarrow> bool" where
  "done_exactly_once ticks started S \<longleftrightarrow>
     (done_flag S \<noteq> None) = started \<and>
     (\<not> started \<longrightarrow> threw (mpc S) \<and> lpc S = NotStarted) \<and>
     (done_flag S = Some True) = (started \<and> exited (mpc S)) \<and>
     count_list (trace S) SetDone = (if started \<and> exited (mpc S) then 1 else 0) \<and>
     sent_after_done (trace S) = [] \<and>
     (2 \<le> count_list ticks MainResume \<longrightarrow> exited (mpc S))"

text \<open>
  A run of \<open>sendTransaction\<close> with a local payer against \<open>example_env\<close>: the loop
  wakes, the confirmation fails, the loop wakes during the simulation, the simulation
  answers, the loop wakes once more.
\<close>

definition example_ticks :: "tick list" where
  "example_ticks = [LoopWake 1000, MainResume, LoopWake 3000, MainResume, LoopWake 5000]"

definition example_run :: state where
  "example_run = sendTransaction example_env 0 (Account example_account) [] None None None
                   example_ticks example_heap"

text \<open>A pre-signed transaction the library refuses to serialize.\<close>

definition unserializable_env :: env where
  "unserializable_env =
     example_env\<lparr>serialize := (\<lambda>t. Inl (Error ''Signature verification failed''))\<rparr>"

definition unserializable_run :: state where
  "unserializable_run =
     sendSignedTransaction unserializable_env 0 None None [MainResume, MainResume] example_heap"

text \<open>The same call against an endpoint on which the confirmation times out.\<close>

definition timeout_env :: env where
  "timeout_env = example_env\<lparr>confirmation := Some (Thrown True ''timeout'')\<rparr>"

definition timeout_run :: state where
  "timeout_run = sendTransaction timeout_env 0 (Account example_account) [] None None None
                   [LoopWake 1000, MainResume] example_heap"

text \<open>The same call against an endpoint whose simulation is unreachable.\<close>

definition unreachable_env :: env where
  "unreachable_env = example_env\<lparr>simulation := Inl (Thrown False ''fetch failed'')\<rparr>"

definition unreachable_run :: state where
  "unreachable_run = sendTransaction unreachable_env 0 (Account example_account) [] None None
                       None example_ticks example_heap"

text \<open>
  What the loop leaves alone, comparing the state \<open>S\<close> reached under some schedule with
  the state \<open>S0\<close> right after the first send: the store (so the signatures and the
  blockhash of the transaction), the signing requests made to the wallet, and the bytes,
  which every send takes from the one serialization.
\<close>

definition resends_serialized_bytes :: "env \<Rightarrow> ref \<Rightarrow> state \<Rightarrow> state \<Rightarrow> bool" where
  "resends_serialized_bytes env transaction S0 S \<longleftrightarrow>
     heap S = heap S0 \<and>
     filter is_wallet_sign (trace S) = filter is_wallet_sign (trace S0) \<and>
     (\<forall>b f. SendRawTransaction b f \<in> set (trace S) \<longrightarrow>
        serialize env (heap S0 transaction) = Inr b)"


text \<open>
  The loop woken 31 seconds after the start, the timeout being the default 30000 ms and the
  caller still waiting for the confirmation.
\<close>

definition overdue_run :: state where
  "overdue_run = sendTransaction example_env 0 (Account example_account) [] None None None
                   [LoopWake 31000] example_heap"

text \<open>A pre-signed transaction that is confirmed before the loop first wakes.\<close>

definition confirming_env :: env where
  "confirming_env = example_env\<lparr>confirmation := None\<rparr>"

definition confirmed_run :: "tick list \<Rightarrow> state" where
  "confirmed_run ticks = sendSignedTransaction confirming_env 0 None None ticks example_heap"

text \<open>
  A wallet that behaves as \<open>w\<close> does but returns the object \<open>r'\<close> where \<open>w\<close>
  returns an object.
\<close>

definition returning ::
  "ref \<Rightarrow> (heap \<Rightarrow> ref \<Rightarrow> (error + ref) \<times> heap) \<Rightarrow> heap \<Rightarrow> ref \<Rightarrow> (error + ref) \<times> heap" where
  "returning r' w h t = (case w h t of (Inl e, h') \<Rightarrow> (Inl e, h') | (Inr r, h') \<Rightarrow> (Inr r', h'))"

text \<open>The example run with the wallet of \<open>example_env\<close> as payer.\<close>

definition wallet_run :: state where
  "wallet_run = sendTransaction example_env 0 (WalletAdapter ''wallet'' True) [] None None None
                  example_ticks example_heap"

text \<open>The transaction id a call returned.\<close>

definition txid_of :: "state \<Rightarrow> txid" where
  "txid_of S = (case mpc S of Returned t \<Rightarrow> t | Threw e \<Rightarrow> [] | AwaitingConfirmation \<Rightarrow> []
                | AwaitingSimulation \<Rightarrow> [])"

text \<open>
  A batch of three transactions: the first and the third are confirmed, the second
  fails on chain; the promises settle in the order of the slots.
\<close>

definition batch_slot :: "env \<Rightarrow> ref \<Rightarrow> tick list \<Rightarrow> state" where
  "batch_slot env tx ticks =
     sendTransaction env tx (Account example_account) [] (Some 30000) (Some ''confirmed'') None
       ticks example_heap"

definition example_batch :: "(state list \<times> txid list promise) option" where
  "example_batch =
     sendTransactions
       [(confirming_env, [MainResume]), (example_env, [MainResume, MainResume]),
        (confirming_env, [MainResume])]
       [0, 1, 2] [0, 1, 2] (Account example_account) [] None None example_heap"

text \<open>
  Two more batches of two transactions: one whose second call has not settled when its
  schedule ends, and one whose calls are both confirmed, the second promise settling
  first.
\<close>

definition pending_batch :: "(state list \<times> txid list promise) option" where
  "pending_batch =
     sendTransactions [(confirming_env, [MainResume]), (example_env, [MainResume])]
       [0, 1] [0, 1] (Account example_account) [] None None example_heap"

definition fulfilled_batch :: "(state list \<times> txid list promise) option" where
  "fulfilled_batch =
     sendTransactions [(confirming_env, [MainResume]), (confirming_env, [MainResume])]
       [1, 0] [0, 1] (Account example_account) [] None None example_heap"

text \<open>
  A call started at the clock reading 1700000000000 with a timeout of 1100 ms, whose loop
  wakes exactly 1100 ms later.
\<close>

definition rounding_env :: env where
  "rounding_env = example_env\<lparr>startClock := 1700000000000\<rparr>"

definition rounding_run :: "tick list \<Rightarrow> state" where
  "rounding_run ticks =
     sendTransaction rounding_env 0 (Account example_account) [] (Some 1100) None None ticks
       example_heap"



text \<open>A wallet adapter that is not connected.\<close>

definition disconnected_wallet :: payer where
  "disconnected_wallet = WalletAdapter ''wallet'' False"

text \<open>
  The call \<open>sendTransactions\<close> makes for slot \<open>i\<close>, run from the store \<open>h\<close>.
\<close>

definition slot_call ::
  "(env \<times> tick list) list \<Rightarrow> ref list \<Rightarrow> payer \<Rightarrow> account list \<Rightarrow> rat option
     \<Rightarrow> string option \<Rightarrow> heap \<Rightarrow> nat \<Rightarrow> state" where
  "slot_call runs transactions payer additionalSigners timeout_arg confirmLevel_arg h i =
     sendTransaction (fst (runs ! i)) (transactions ! i) payer additionalSigners
       (Some (case timeout_arg of None \<Rightarrow> 30000 | Some t \<Rightarrow> t))
       (Some (case confirmLevel_arg of None \<Rightarrow> ''confirmed'' | Some l \<Rightarrow> l))
       None (snd (runs ! i)) h"

text \<open>
  The store of the examples after another call has prepared and signed the second
  transaction.
\<close>

definition busy_heap :: heap where
  "busy_heap =
     example_heap(1 := \<lparr>instructions = [], recentBlockhash = Some ''blockhash'',
                          calls = [SetSigners [''signer''],
                                   Sign [Some (Account example_account)]]\<rparr>)"

section \<open>Invariants of a submission\<close>

text \<open>A property kept by every step holds after any schedule.\<close>

lemma foldl_invariant:
  assumes "P s" and "\<And>s t. P s \<Longrightarrow> P (f s t)"
  shows "P (foldl f s ts)"
  using assms(1) by (induction ts arbitrary: s) (auto intro: assms(2))

lemma dropWhile_snoc_done:
  "SetDone \<notin> set tr \<Longrightarrow> dropWhile (\<lambda>e. e \<noteq> SetDone) (tr @ [SetDone]) = [SetDone]"
  by (induction tr) auto

lemma sent_after_done_snoc_done:
  "SetDone \<notin> set tr \<Longrightarrow> sent_after_done (tr @ [SetDone]) = []"
  by (simp add: sent_after_done_def dropWhile_snoc_done)

lemma takeWhile_snoc_done:
  "SetDone \<notin> set tr \<Longrightarrow> takeWhile (\<lambda>e. e \<noteq> SetDone) (tr @ [SetDone]) = tr"
  by (induction tr) auto

lemma count_snoc_done:
  "SetDone \<notin> set tr \<Longrightarrow> count_list (tr @ [SetDone]) SetDone = 1"
  by (induction tr) auto

lemma broadcast_wake_cases:
  "broadcast_wake cadence limit raw startTime now s = s \<or>
   broadcast_wake cadence limit raw startTime now s = s\<lparr>lpc := Exited\<rparr> \<or>
   (done_flag s = Some False \<and>
    broadcast_wake cadence limit raw startTime now s
      = s\<lparr>trace := trace s @ [SendRawTransaction raw True, Sleep cadence]\<rparr>)"
  by (simp add: broadcast_wake_def)


lemma inv_lpc_update:
  "submission_inv c env tx raw txid s \<Longrightarrow> l \<noteq> NotStarted \<Longrightarrow>
   submission_inv c env tx raw txid (s\<lparr>lpc := l\<rparr>)"
  by (simp add: submission_inv_def)

lemma inv_send:
  assumes "submission_inv c env tx raw txid s" and "done_flag s = Some False"
  shows "submission_inv c env tx raw txid
           (s\<lparr>trace := trace s @ [SendRawTransaction raw True, Sleep cadence]\<rparr>)"
  using assms by (cases "mpc s") (simp_all add: submission_inv_def)

lemma broadcast_wake_inv:
  assumes "submission_inv c env tx raw txid s"
  shows "submission_inv c env tx raw txid (broadcast_wake cadence limit raw startTime now s)"
  using broadcast_wake_cases [of cadence limit raw startTime now s] assms
  by (auto intro: inv_lpc_update inv_send)

lemma main_resume_inv:
  assumes "submission_inv c env tx raw txid s"
  shows "submission_inv c env tx raw txid (main_resume env c tx txid s)"
proof (cases "mpc s")
  case AwaitingConfirmation
  with assms show ?thesis
    by (cases "confirmation env")
       (simp_all add: submission_inv_def main_resume_def catch_block_def finally_block_def
          sent_after_done_snoc_done takeWhile_snoc_done count_snoc_done)
next
  case AwaitingSimulation
  with assms show ?thesis
    by (cases "confirmation env")
       (simp_all add: submission_inv_def main_resume_def after_simulation_def finally_block_def
          sent_after_done_snoc_done takeWhile_snoc_done count_snoc_done)
next
  case (Returned t)
  with assms show ?thesis by (simp add: main_resume_def)
next
  case (Threw e)
  with assms show ?thesis by (simp add: main_resume_def)
qed

lemma submission_step_inv:
  "submission_inv c env tx raw txid s \<Longrightarrow>
   submission_inv c env tx raw txid (submission_step cadence limit c env tx raw txid startTime s t)"
  by (cases t) (simp_all add: submission_step_def broadcast_wake_inv main_resume_inv)

lemma submission_run_inv:
  "submission_inv c env tx raw txid s \<Longrightarrow>
   submission_inv c env tx raw txid
     (foldl (submission_step cadence limit c env tx raw txid startTime) s ticks)"
  by (rule foldl_invariant) (auto intro: submission_step_inv)


lemma heap_broadcast_wake [simp]:
  "heap (broadcast_wake cadence limit raw startTime now s) = heap s"
  by (simp add: broadcast_wake_def)

lemma heap_main_resume [simp]: "heap (main_resume env c tx txid s) = heap s"
  by (cases "mpc s"; cases "confirmation env")
     (simp_all add: main_resume_def catch_block_def after_simulation_def finally_block_def)

lemma heap_submission_run:
  "heap (foldl (submission_step cadence limit c env tx raw txid startTime) s ticks) = heap s"
  by (rule foldl_invariant [where P = "\<lambda>s'. heap s' = heap s"])
     (simp_all add: submission_step_def split: tick.splits)

lemma signTransaction_events:
  "signTransaction env tx payer signers h = (r, h1, evs) \<Longrightarrow>
   evs = [GetRecentBlockhash None] \<or> evs = [GetRecentBlockhash None, WalletSignTransaction tx]"
  by (auto simp: signTransaction_def Let_def
        split: sum.splits if_splits prod.splits option.splits)

lemma sendTransaction_outcome:
  "failed_before_flag env tx (sendTransaction env tx payer signers to lv cb ticks h) \<or>
   (\<exists>raw txid. submission_inv ''processed'' env tx raw txid
                  (sendTransaction env tx payer signers to lv cb ticks h))"
proof -
  obtain r h1 evs where sg: "signTransaction env tx payer signers h = (r, h1, evs)"
    by (cases "signTransaction env tx payer signers h") auto
  note ev = signTransaction_events [OF sg]
  show ?thesis
  proof (cases r)
    case (Inl e)
    with sg ev show ?thesis
      by (auto simp: sendTransaction_def failed_before_flag_def)
  next
    case (Inr ign)
    show ?thesis
    proof (cases "serialize env (h1 tx)")
      case (Inl e)
      with sg ev Inr show ?thesis
        by (auto simp: sendTransaction_def failed_before_flag_def)
    next
      case ser: (Inr raw)
      show ?thesis
      proof (cases "sendRawTransaction env raw")
        case (Inl e)
        with sg ev Inr ser show ?thesis
          by (auto simp: sendTransaction_def failed_before_flag_def split: option.splits)
      next
        case snd: (Inr txid)
        have "submission_inv ''processed'' env tx raw txid
                (sendTransaction env tx payer signers to lv cb ticks h)"
          using sg ev Inr ser snd
          by (auto simp: sendTransaction_def Let_def split: option.splits
                intro!: submission_run_inv)
             (simp_all add: submission_inv_def)
        then show ?thesis by blast
      qed
    qed
  qed
qed


lemma sendSignedTransaction_outcome:
  "failed_before_flag env tx (sendSignedTransaction env tx to lv ticks h) \<or>
   (\<exists>raw txid. submission_inv ''single'' env tx raw txid
                  (sendSignedTransaction env tx to lv ticks h))"
proof (cases "serialize env (h tx)")
  case (Inl e)
  then show ?thesis by (simp add: sendSignedTransaction_def failed_before_flag_def)
next
  case ser: (Inr raw)
  show ?thesis
  proof (cases "sendRawTransaction env raw")
    case (Inl e)
    with ser show ?thesis by (simp add: sendSignedTransaction_def failed_before_flag_def)
  next
    case (Inr txid)
    have "submission_inv ''single'' env tx raw txid (sendSignedTransaction env tx to lv ticks h)"
      using ser Inr
      by (auto simp: sendSignedTransaction_def Let_def intro!: submission_run_inv)
         (simp_all add: submission_inv_def)
    then show ?thesis by blast
  qed
qed

lemma dropWhile_no_done:
  "SetDone \<notin> set tr \<Longrightarrow> sent_after_done tr = []"
proof -
  assume "SetDone \<notin> set tr"
  then have "dropWhile (\<lambda>e. e \<noteq> SetDone) tr = []"
    by (induction tr) auto
  then show ?thesis unfolding sent_after_done_def by (simp only: filter.simps)
qed

lemma inv_flag_facts:
  assumes "submission_inv c env tx raw txid s"
  shows "count_list (trace s) SetDone = (if done_flag s = Some True then 1 else 0)"
    and "sent_after_done (trace s) = []"
    and "exited (mpc s) \<longleftrightarrow> done_flag s = Some True"
    and "done_flag s \<noteq> None" and "lpc s \<noteq> NotStarted"
  using assms
  by (cases "mpc s"; simp add: submission_inv_def dropWhile_no_done)+

lemma failed_flag_facts:
  assumes "failed_before_flag env tx s"
  shows "count_list (trace s) SetDone = 0"
    and "sent_after_done (trace s) = []"
    and "exited (mpc s)" and "done_flag s = None" and "lpc s = NotStarted"
  using assms by (auto simp: failed_before_flag_def dropWhile_no_done)

lemma mpc_broadcast_wake [simp]:
  "mpc (broadcast_wake cadence limit raw startTime now s) = mpc s"
  by (simp add: broadcast_wake_def)

lemma rank_main_resume:
  "min 2 (Suc (rank (mpc s))) \<le> rank (mpc (main_resume env c tx txid s))"
  by (cases "mpc s"; cases "confirmation env")
     (simp_all add: main_resume_def catch_block_def after_simulation_def finally_block_def)

lemma submission_step_simps [simp]:
  "submission_step cadence limit c env tx raw txid startTime s MainResume
     = main_resume env c tx txid s"
  "submission_step cadence limit c env tx raw txid startTime s (LoopWake ms)
     = broadcast_wake cadence limit raw startTime (getUnixTs ms) s"
  by (simp_all add: submission_step_def)

lemma rank_run:
  "min 2 (rank (mpc s) + count_list ticks MainResume)
     \<le> rank (mpc (foldl (submission_step cadence limit c env tx raw txid startTime) s ticks))"
proof (induction ticks arbitrary: s)
  case Nil
  then show ?case by simp
next
  case (Cons t ticks)
  show ?case
  proof (cases t)
    case MainResume
    have "min 2 (rank (mpc s) + count_list (t # ticks) MainResume)
            = min 2 (min 2 (Suc (rank (mpc s))) + count_list ticks MainResume)"
      using MainResume by simp
    also have "\<dots> \<le> min 2 (rank (mpc (main_resume env c tx txid s)) + count_list ticks MainResume)"
      using rank_main_resume [of s env c tx txid] by simp
    also have "\<dots> \<le> rank (mpc (foldl (submission_step cadence limit c env tx raw txid startTime)
                               (main_resume env c tx txid s) ticks))"
      by (rule Cons.IH)
    finally show ?thesis using MainResume by simp
  next
    case (LoopWake ms)
    with Cons.IH [of "broadcast_wake cadence limit raw startTime (getUnixTs ms) s"]
    show ?thesis by simp
  qed
qed

lemma run_exits:
  "2 \<le> count_list ticks MainResume \<Longrightarrow>
   exited (mpc (foldl (submission_step cadence limit c env tx raw txid startTime) s ticks))"
  using rank_run [of s ticks cadence limit c env tx raw txid startTime]
  by (cases "mpc (foldl (submission_step cadence limit c env tx raw txid startTime) s ticks)")
     simp_all

lemma sendTransaction_exits:
  "2 \<le> count_list ticks MainResume \<Longrightarrow>
   exited (mpc (sendTransaction env tx payer signers to lv cb ticks h))"
  by (auto simp: sendTransaction_def Let_def run_exits split: prod.splits sum.splits)

lemma sendSignedTransaction_exits:
  "2 \<le> count_list ticks MainResume \<Longrightarrow>
   exited (mpc (sendSignedTransaction env tx to lv ticks h))"
  by (auto simp: sendSignedTransaction_def Let_def run_exits split: prod.splits sum.splits)


lemma simulate_ok_mem:
  "list_all (simulate_ok tx c) tr \<Longrightarrow> SimulateTransaction r c' \<in> set tr \<Longrightarrow> r = tx \<and> c' = c"
  by (auto simp: list_all_iff)

lemma send_ok_mem:
  "list_all (send_ok raw) tr \<Longrightarrow> SendRawTransaction b f \<in> set tr \<Longrightarrow> b = raw \<and> f"
  by (auto simp: list_all_iff)

lemma inv_after_simulate:
  assumes "submission_inv c env tx raw txid s" and "SimulateTransaction r c' \<in> set (trace s)"
    and "exited (mpc s)"
  shows "mpc s = Threw (Error (failure_message (JSON_stringify env) (simulateResult env)))"
proof -
  have rc: "r = tx \<and> c' = c"
    using assms(1,2) by (auto simp: submission_inv_def dest: simulate_ok_mem)
  show ?thesis
  proof (cases "mpc s")
    case (Threw x)
    with assms(1,2) rc show ?thesis
      by (cases "confirmation env") (auto simp: submission_inv_def split: if_splits)
  qed (use assms rc in \<open>auto simp: submission_inv_def\<close>)
qed

lemma inv_simulate_cause:
  assumes "submission_inv c env tx raw txid s" and "SimulateTransaction r c' \<in> set (trace s)"
  shows "r = tx \<and> c' = c \<and> (\<exists>e. confirmation env = Some e \<and> \<not> timeout_of e)"
proof -
  have rc: "r = tx \<and> c' = c"
    using assms by (auto simp: submission_inv_def dest: simulate_ok_mem)
  show ?thesis
    using assms rc
    by (cases "mpc s"; cases "confirmation env")
       (auto simp: submission_inv_def split: if_splits)
qed

lemma inv_exit_cause:
  assumes "submission_inv c env tx raw txid s" and "exited (mpc s)"
  shows "case confirmation env of
           None \<Rightarrow> mpc s = Returned txid
         | Some e \<Rightarrow>
             if timeout_of e
             then mpc s = Threw (Error ''Timed out awaiting confirmation on transaction'')
             else mpc s = Threw (Error (failure_message (JSON_stringify env) (simulateResult env)))
                  \<and> SimulateTransaction tx c \<in> set (takeWhile (\<lambda>e. e \<noteq> SetDone) (trace s))"
  using assms
  by (cases "mpc s"; cases "confirmation env")
     (auto simp: submission_inv_def split: if_splits)

lemma scan_logs_find:
  "i \<le> length ls \<Longrightarrow>
   scan_logs ls i =
     map_option (\<lambda>line. ''Transaction failed: '' @ drop (length ''Program log: '') line)
       (find (prefix ''Program log: '') (rev (take i ls)))"
proof (induction i)
  case 0
  then show ?case by simp
next
  case (Suc i)
  then have "take (Suc i) ls = take i ls @ [ls ! i]"
    by (simp add: take_Suc_conv_app_nth)
  with Suc show ?case by (simp add: Let_def)
qed


lemma sendTransaction_heap:
  "heap (sendTransaction env tx payer signers to lv cb ticks h)
     = heap (sendTransaction env tx payer signers to lv cb [] h)"
  by (simp add: sendTransaction_def Let_def heap_submission_run
        split: prod.splits sum.splits)

lemma sendSignedTransaction_heap: "heap (sendSignedTransaction env tx to lv ticks h) = h"
  by (simp add: sendSignedTransaction_def Let_def heap_submission_run
        split: prod.splits sum.splits)

lemma wallet_sign_step:
  "filter is_wallet_sign (trace (submission_step cadence limit c env tx raw txid startTime s t))
     = filter is_wallet_sign (trace s)"
  by (cases t; cases "mpc s"; cases "confirmation env")
     (simp_all add: broadcast_wake_def main_resume_def catch_block_def after_simulation_def
        finally_block_def)

lemma wallet_sign_run:
  "filter is_wallet_sign
     (trace (foldl (submission_step cadence limit c env tx raw txid startTime) s ticks))
     = filter is_wallet_sign (trace s)"
  by (rule foldl_invariant
        [where P = "\<lambda>s'. filter is_wallet_sign (trace s') = filter is_wallet_sign (trace s)"])
     (simp_all add: wallet_sign_step)

lemma sendTransaction_wallet_sign:
  "filter is_wallet_sign (trace (sendTransaction env tx payer signers to lv cb ticks h))
     = filter is_wallet_sign (trace (sendTransaction env tx payer signers to lv cb [] h))"
  by (simp add: sendTransaction_def Let_def wallet_sign_run
        split: prod.splits sum.splits)

lemma sendSignedTransaction_wallet_sign:
  "filter is_wallet_sign (trace (sendSignedTransaction env tx to lv ticks h)) = []"
  by (simp add: sendSignedTransaction_def Let_def wallet_sign_run
        split: prod.splits sum.splits)

lemma outcome_sends:
  assumes "failed_before_flag env tx S \<or> (\<exists>raw txid. submission_inv c env tx raw txid S)"
    and "SendRawTransaction b f \<in> set (trace S)"
  shows "serialize env (heap S tx) = Inr b \<and> f"
  using assms
  by (auto simp: failed_before_flag_def submission_inv_def dest: send_ok_mem)

lemma concat_replicate_Suc:
  "concat (replicate k xs) @ xs = concat (replicate (Suc k) xs)"
  by (induction k) simp_all

lemma broadcasting_step:
  "broadcasting (trace (submission_step cadence limit c env tx raw txid startTime s t))
     = broadcasting (trace s) \<or>
   broadcasting (trace (submission_step cadence limit c env tx raw txid startTime s t))
     = broadcasting (trace s) @ [SendRawTransaction raw True, Sleep cadence]"
  by (cases t; cases "mpc s"; cases "confirmation env")
     (simp_all add: broadcast_wake_def main_resume_def catch_block_def after_simulation_def
        finally_block_def broadcasting_def)

lemma broadcasting_run:
  "\<exists>k. broadcasting
          (trace (foldl (submission_step cadence limit c env tx raw txid startTime) s ticks))
     = broadcasting (trace s) @ concat (replicate k [SendRawTransaction raw True, Sleep cadence])"
proof (rule foldl_invariant
    [where P = "\<lambda>s'. \<exists>k. broadcasting (trace s') = broadcasting (trace s)
                   @ concat (replicate k [SendRawTransaction raw True, Sleep cadence])"])
  show "\<exists>k. broadcasting (trace s) = broadcasting (trace s)
              @ concat (replicate k [SendRawTransaction raw True, Sleep cadence])"
    by (rule exI [of _ 0]) simp
next
  fix s' :: state and t
  assume "\<exists>k. broadcasting (trace s') = broadcasting (trace s)
                @ concat (replicate k [SendRawTransaction raw True, Sleep cadence])"
  then obtain k where k: "broadcasting (trace s') = broadcasting (trace s)
                @ concat (replicate k [SendRawTransaction raw True, Sleep cadence])" ..
  from broadcasting_step [of cadence limit c env tx raw txid startTime s' t]
  show "\<exists>k. broadcasting
               (trace (submission_step cadence limit c env tx raw txid startTime s' t))
           = broadcasting (trace s)
               @ concat (replicate k [SendRawTransaction raw True, Sleep cadence])"
  proof
    assume "broadcasting (trace (submission_step cadence limit c env tx raw txid startTime s' t))
              = broadcasting (trace s')"
    with k show ?thesis by auto
  next
    assume "broadcasting (trace (submission_step cadence limit c env tx raw txid startTime s' t))
              = broadcasting (trace s') @ [SendRawTransaction raw True, Sleep cadence]"
    with k have "broadcasting
                   (trace (submission_step cadence limit c env tx raw txid startTime s' t))
              = broadcasting (trace s)
                  @ concat (replicate (Suc k) [SendRawTransaction raw True, Sleep cadence])"
      by (simp only: append_assoc concat_replicate_Suc)
    then show ?thesis ..
  qed
qed

text \<open>A call that gets as far as the flag, and one that does not.\<close>

lemma sendTransaction_started:
  assumes "sendTransaction_starts env tx payer signers h = Some (raw, txid)"
  shows "sendTransaction env tx payer signers to lv cb ticks h =
           foldl (submission_step 2000
                    (double_div (case to of None \<Rightarrow> 30000 | Some t \<Rightarrow> t) 1000)
                    ''processed'' env tx raw txid (getUnixTs (startClock env)))
             (sendTransaction env tx payer signers to lv cb [] h) ticks"
    and "broadcasting (trace (sendTransaction env tx payer signers to lv cb [] h)) =
           [SendRawTransaction raw True, Sleep 1000,
            AwaitConfirmation txid (case to of None \<Rightarrow> 30000 | Some t \<Rightarrow> t)
              (case lv of None \<Rightarrow> ''processed'' | Some l \<Rightarrow> l)]"
    and "submission_inv ''processed'' env tx raw txid
           (sendTransaction env tx payer signers to lv cb [] h)"
proof -
  obtain r h1 evs where sg: "signTransaction env tx payer signers h = (r, h1, evs)"
    by (cases "signTransaction env tx payer signers h") auto
  note ev = signTransaction_events [OF sg]
  from assms sg obtain ign where r: "r = Inr ign"
    and ser: "serialize env (h1 tx) = Inr raw" and snd: "sendRawTransaction env raw = Inr txid"
    by (auto simp: sendTransaction_starts_def first_send_def split: sum.splits)
  show "sendTransaction env tx payer signers to lv cb ticks h =
           foldl (submission_step 2000
                    (double_div (case to of None \<Rightarrow> 30000 | Some t \<Rightarrow> t) 1000)
                    ''processed'' env tx raw txid (getUnixTs (startClock env)))
             (sendTransaction env tx payer signers to lv cb [] h) ticks"
    using sg r ser snd by (simp add: sendTransaction_def Let_def)
  show "broadcasting (trace (sendTransaction env tx payer signers to lv cb [] h)) =
           [SendRawTransaction raw True, Sleep 1000,
            AwaitConfirmation txid (case to of None \<Rightarrow> 30000 | Some t \<Rightarrow> t)
              (case lv of None \<Rightarrow> ''processed'' | Some l \<Rightarrow> l)]"
    using sg r ser snd ev
    by (auto simp: sendTransaction_def Let_def broadcasting_def split: option.splits)
  show "submission_inv ''processed'' env tx raw txid
           (sendTransaction env tx payer signers to lv cb [] h)"
    using sg r ser snd ev
    by (auto simp: sendTransaction_def Let_def submission_inv_def split: option.splits)
qed

lemma sendTransaction_not_started:
  assumes "sendTransaction_starts env tx payer signers h = None"
  shows "failed_before_flag env tx (sendTransaction env tx payer signers to lv cb ticks h)"
proof -
  obtain r h1 evs where sg: "signTransaction env tx payer signers h = (r, h1, evs)"
    by (cases "signTransaction env tx payer signers h") auto
  note ev = signTransaction_events [OF sg]
  show ?thesis
    using assms sg ev
    by (auto simp: sendTransaction_starts_def first_send_def sendTransaction_def
          failed_before_flag_def split: sum.splits option.splits)
qed

lemma sendSignedTransaction_started:
  assumes "sendSignedTransaction_starts env tx h = Some (raw, txid)"
  shows "sendSignedTransaction env tx to lv ticks h =
           foldl (submission_step 500 (case to of None \<Rightarrow> 30000 | Some t \<Rightarrow> t)
                    ''single'' env tx raw txid (getUnixTs (startClock env)))
             (sendSignedTransaction env tx to lv [] h) ticks"
    and "broadcasting (trace (sendSignedTransaction env tx to lv [] h)) =
           [SendRawTransaction raw True, Sleep 500,
            AwaitConfirmation txid (case to of None \<Rightarrow> 30000 | Some t \<Rightarrow> t)
              (case lv of None \<Rightarrow> ''processed'' | Some l \<Rightarrow> l)]"
    and "submission_inv ''single'' env tx raw txid (sendSignedTransaction env tx to lv [] h)"
  using assms
  by (auto simp: sendSignedTransaction_starts_def first_send_def sendSignedTransaction_def
        Let_def broadcasting_def submission_inv_def split: sum.splits)

lemma sendSignedTransaction_not_started:
  assumes "sendSignedTransaction_starts env tx h = None"
  shows "failed_before_flag env tx (sendSignedTransaction env tx to lv ticks h)"
  using assms
  by (auto simp: sendSignedTransaction_starts_def first_send_def sendSignedTransaction_def
        failed_before_flag_def split: sum.splits)

text \<open>What a call that got as far as the flag has broadcast, under any schedule.\<close>

lemma sendTransaction_broadcasting:
  assumes "sendTransaction_starts env tx payer signers h = Some (raw, txid)"
  shows "\<exists>k. broadcasting (trace (sendTransaction env tx payer signers to lv cb ticks h)) =
           [SendRawTransaction raw True, Sleep 1000,
            AwaitConfirmation txid (case to of None \<Rightarrow> 30000 | Some t \<Rightarrow> t)
              (case lv of None \<Rightarrow> ''processed'' | Some l \<Rightarrow> l)]
           @ concat (replicate k [SendRawTransaction raw True, Sleep 2000])"
  using broadcasting_run [of 2000 "double_div (case to of None \<Rightarrow> 30000 | Some t \<Rightarrow> t) 1000"
      "''processed''" env tx raw txid "getUnixTs (startClock env)"
      "sendTransaction env tx payer signers to lv cb [] h" ticks]
  unfolding sendTransaction_started(1) [OF assms, symmetric]
    sendTransaction_started(2) [OF assms] .

lemma sendSignedTransaction_broadcasting:
  assumes "sendSignedTransaction_starts env tx h = Some (raw, txid)"
  shows "\<exists>k. broadcasting (trace (sendSignedTransaction env tx to lv ticks h)) =
           [SendRawTransaction raw True, Sleep 500,
            AwaitConfirmation txid (case to of None \<Rightarrow> 30000 | Some t \<Rightarrow> t)
              (case lv of None \<Rightarrow> ''processed'' | Some l \<Rightarrow> l)]
           @ concat (replicate k [SendRawTransaction raw True, Sleep 500])"
  using broadcasting_run [of 500 "case to of None \<Rightarrow> 30000 | Some t \<Rightarrow> t"
      "''single''" env tx raw txid "getUnixTs (startClock env)"
      "sendSignedTransaction env tx to lv [] h" ticks]
  unfolding sendSignedTransaction_started(1) [OF assms, symmetric]
    sendSignedTransaction_started(2) [OF assms] .

lemma sendTransaction_started_inv:
  assumes "sendTransaction_starts env tx payer signers h = Some (raw, txid)"
  shows "submission_inv ''processed'' env tx raw txid
           (sendTransaction env tx payer signers to lv cb ticks h)"
  unfolding sendTransaction_started(1) [OF assms, of to lv cb ticks]
  by (rule submission_run_inv) (rule sendTransaction_started(3) [OF assms])

lemma sendSignedTransaction_started_inv:
  assumes "sendSignedTransaction_starts env tx h = Some (raw, txid)"
  shows "submission_inv ''single'' env tx raw txid
           (sendSignedTransaction env tx to lv ticks h)"
  unfolding sendSignedTransaction_started(1) [OF assms, of to lv ticks]
  by (rule submission_run_inv) (rule sendSignedTransaction_started(3) [OF assms])

lemma awaited_append: "awaited (xs @ ys) = awaited xs @ awaited ys"
  by (induction xs rule: awaited.induct) simp_all

lemma awaited_broadcasting: "awaited (broadcasting tr) = awaited tr"
  unfolding broadcasting_def by (induction tr rule: awaited.induct) simp_all

lemma awaited_resends:
  "awaited (concat (replicate k [SendRawTransaction raw f, Sleep n])) = []"
  by (induction k) simp_all

lemma sendTransaction_awaited:
  assumes "sendTransaction_starts env tx payer signers h = Some (raw, txid)"
  shows "awaited (trace (sendTransaction env tx payer signers to lv cb ticks h)) =
           [(txid, case to of None \<Rightarrow> 30000 | Some t \<Rightarrow> t,
             case lv of None \<Rightarrow> ''processed'' | Some l \<Rightarrow> l)]"
proof -
  from sendTransaction_broadcasting [OF assms, of to lv cb ticks] obtain k where
    "broadcasting (trace (sendTransaction env tx payer signers to lv cb ticks h)) =
       [SendRawTransaction raw True, Sleep 1000,
        AwaitConfirmation txid (case to of None \<Rightarrow> 30000 | Some t \<Rightarrow> t)
          (case lv of None \<Rightarrow> ''processed'' | Some l \<Rightarrow> l)]
       @ concat (replicate k [SendRawTransaction raw True, Sleep 2000])" ..
  then have "awaited (broadcasting (trace (sendTransaction env tx payer signers to lv cb ticks h)))
      = [(txid, case to of None \<Rightarrow> 30000 | Some t \<Rightarrow> t,
          case lv of None \<Rightarrow> ''processed'' | Some l \<Rightarrow> l)]"
    by (simp add: awaited_append awaited_resends)
  then show ?thesis by (simp only: awaited_broadcasting)
qed

lemma sendSignedTransaction_awaited:
  assumes "sendSignedTransaction_starts env tx h = Some (raw, txid)"
  shows "awaited (trace (sendSignedTransaction env tx to lv ticks h)) =
           [(txid, case to of None \<Rightarrow> 30000 | Some t \<Rightarrow> t,
             case lv of None \<Rightarrow> ''processed'' | Some l \<Rightarrow> l)]"
proof -
  from sendSignedTransaction_broadcasting [OF assms, of to lv ticks] obtain k where
    "broadcasting (trace (sendSignedTransaction env tx to lv ticks h)) =
       [SendRawTransaction raw True, Sleep 500,
        AwaitConfirmation txid (case to of None \<Rightarrow> 30000 | Some t \<Rightarrow> t)
          (case lv of None \<Rightarrow> ''processed'' | Some l \<Rightarrow> l)]
       @ concat (replicate k [SendRawTransaction raw True, Sleep 500])" ..
  then have "awaited (broadcasting (trace (sendSignedTransaction env tx to lv ticks h)))
      = [(txid, case to of None \<Rightarrow> 30000 | Some t \<Rightarrow> t,
          case lv of None \<Rightarrow> ''processed'' | Some l \<Rightarrow> l)]"
    by (simp add: awaited_append awaited_resends)
  then show ?thesis by (simp only: awaited_broadcasting)
qed

text \<open>The loop of a call that got as far as the flag, woken once more.\<close>

lemma sendTransaction_wake_started:
  assumes "sendTransaction_starts env tx payer signers h = Some (raw, txid)"
  shows "sendTransaction env tx payer signers to lv cb (ticks @ [LoopWake now]) h =
     broadcast_wake 2000 (double_div (case to of None \<Rightarrow> 30000 | Some t \<Rightarrow> t) 1000) raw
       (getUnixTs (startClock env)) (getUnixTs now)
       (sendTransaction env tx payer signers to lv cb ticks h)"
  unfolding sendTransaction_started(1) [OF assms, of to lv cb "ticks @ [LoopWake now]"]
    sendTransaction_started(1) [OF assms, of to lv cb ticks]
  by simp

lemma sendSignedTransaction_wake_started:
  assumes "sendSignedTransaction_starts env tx h = Some (raw, txid)"
  shows "sendSignedTransaction env tx to lv (ticks @ [LoopWake now]) h =
     broadcast_wake 500 (case to of None \<Rightarrow> 30000 | Some t \<Rightarrow> t) raw
       (getUnixTs (startClock env)) (getUnixTs now)
       (sendSignedTransaction env tx to lv ticks h)"
  unfolding sendSignedTransaction_started(1) [OF assms, of to lv "ticks @ [LoopWake now]"]
    sendSignedTransaction_started(1) [OF assms, of to lv ticks]
  by simp



lemma main_resume_wallet:
  "main_resume (env\<lparr>wallet_signTransaction := w\<rparr>) c tx txid s = main_resume env c tx txid s"
  by (cases "mpc s") (simp_all add: main_resume_def after_simulation_def simulateResult_def)

lemma submission_step_wallet:
  "submission_step cadence limit c (env\<lparr>wallet_signTransaction := w\<rparr>) tx raw txid st s t =
   submission_step cadence limit c env tx raw txid st s t"
  by (cases t) (simp_all add: main_resume_wallet)

lemma submission_run_wallet:
  "foldl (submission_step cadence limit c (env\<lparr>wallet_signTransaction := w\<rparr>) tx raw txid st)
     s ticks
   = foldl (submission_step cadence limit c env tx raw txid st) s ticks"
  by (induction ticks arbitrary: s) (simp_all add: submission_step_wallet)

lemma signTransaction_returning:
  "signTransaction (env\<lparr>wallet_signTransaction := returning r' (wallet_signTransaction env)\<rparr>)
     tx payer signers h =
   (case signTransaction env tx payer signers h of
      (Inl e, h1, evs) \<Rightarrow> (Inl e, h1, evs)
    | (Inr None, h1, evs) \<Rightarrow> (Inr None, h1, evs)
    | (Inr (Some r), h1, evs) \<Rightarrow> (Inr (Some r'), h1, evs))"
  by (simp add: signTransaction_def returning_def Let_def
        split: sum.splits prod.splits option.splits)

lemma sendTransaction_after_sign:
  assumes "signTransaction env tx payer signers h = (r, h1, evs)"
    and "signTransaction env' tx payer signers h = (r', h1, evs)"
    and "isl r' = isl r"
    and "serialize env' = serialize env" and "sendRawTransaction env' = sendRawTransaction env"
    and "startClock env' = startClock env"
    and "\<And>cadence limit c raw txid st s.
           foldl (submission_step cadence limit c env' tx raw txid st) s ticks
             = foldl (submission_step cadence limit c env tx raw txid st) s ticks"
    and "isl r \<Longrightarrow> r' = r"
  shows "sendTransaction env' tx payer signers to lv cb ticks h
           = sendTransaction env tx payer signers to lv cb ticks h"
proof (cases r)
  case (Inl e)
  with assms show ?thesis by (simp add: sendTransaction_def)
next
  case (Inr x)
  with assms(3) obtain x' where "r' = Inr x'" by (cases r') auto
  with Inr assms(1,2,4-7) show ?thesis
    by (simp add: sendTransaction_def Let_def split: sum.splits)
qed

lemma sendTransaction_ignores_returned_object:
  "sendTransaction (env\<lparr>wallet_signTransaction := returning r' (wallet_signTransaction env)\<rparr>)
     tx payer signers to lv cb ticks h
   = sendTransaction env tx payer signers to lv cb ticks h"
proof -
  obtain r h1 evs where sg: "signTransaction env tx payer signers h = (r, h1, evs)"
    by (cases "signTransaction env tx payer signers h") auto
  let ?env' = "env\<lparr>wallet_signTransaction := returning r' (wallet_signTransaction env)\<rparr>"
  define r2 where "r2 = (case r of Inl e \<Rightarrow> Inl e | Inr None \<Rightarrow> Inr None
                          | Inr (Some x) \<Rightarrow> Inr (Some r'))"
  have sg': "signTransaction ?env' tx payer signers h = (r2, h1, evs)"
    using sg by (simp add: signTransaction_returning r2_def split: sum.splits option.splits)
  have rr: "isl r2 = isl r" "isl r \<Longrightarrow> r2 = r"
    by (auto simp: r2_def split: sum.splits option.splits)
  show ?thesis
    by (rule sendTransaction_after_sign [OF sg sg' rr(1)])
       (simp_all add: submission_run_wallet rr(2))
qed

lemma sendTransaction_heap_signed:
  "signTransaction env tx payer signers h = (r, h1, evs) \<Longrightarrow>
   heap (sendTransaction env tx payer signers to lv cb ticks h) = h1"
  by (simp add: sendTransaction_def Let_def heap_submission_run split: sum.splits)

lemma sendTransaction_unserializable:
  "signTransaction env tx payer signers h = (Inr r, h1, evs) \<Longrightarrow>
   serialize env (h1 tx) = Inl e \<Longrightarrow>
   mpc (sendTransaction env tx payer signers to lv cb ticks h) = Threw e \<and>
   trace (sendTransaction env tx payer signers to lv cb ticks h) = evs"
  by (simp add: sendTransaction_def)

text \<open>
  A call whose payer signs locally reads and writes no object of the store but its own
  transaction.
\<close>

lemma signTransaction_local:
  assumes "\<not> payer_connected payer" and "h' tx = h tx"
  shows "fst (signTransaction env tx payer signers h')
           = fst (signTransaction env tx payer signers h)"
    and "snd (snd (signTransaction env tx payer signers h'))
           = snd (snd (signTransaction env tx payer signers h))"
    and "fst (snd (signTransaction env tx payer signers h')) tx
           = fst (snd (signTransaction env tx payer signers h)) tx"
    and "r \<noteq> tx \<Longrightarrow> fst (snd (signTransaction env tx payer signers h)) r = h r"
  using assms
  by (simp_all add: signTransaction_def prepare_transaction_def call_method_def Let_def
        split: sum.splits option.splits)

lemma submission_step_heap_update:
  "submission_step cadence limit c env tx raw txid st (s\<lparr>heap := g\<rparr>) t
     = (submission_step cadence limit c env tx raw txid st s t)\<lparr>heap := g\<rparr>"
  by (cases t; cases "mpc s"; cases "confirmation env")
     (simp_all add: broadcast_wake_def main_resume_def catch_block_def after_simulation_def
        finally_block_def)

lemma submission_run_heap_update:
  "foldl (submission_step cadence limit c env tx raw txid st) (s\<lparr>heap := g\<rparr>) ticks
     = (foldl (submission_step cadence limit c env tx raw txid st) s ticks)\<lparr>heap := g\<rparr>"
proof (induction ticks arbitrary: s)
  case Nil
  show ?case by simp
next
  case (Cons t ticks)
  show ?case
    unfolding foldl_Cons submission_step_heap_update by (rule Cons.IH)
qed

lemma sendTransaction_local:
  assumes "\<not> payer_connected payer" and "h' tx = h tx"
  shows "\<exists>g. g tx = heap (sendTransaction env tx payer signers to lv cb ticks h) tx \<and>
           sendTransaction env tx payer signers to lv cb ticks h'
             = (sendTransaction env tx payer signers to lv cb ticks h)\<lparr>heap := g\<rparr>"
    and "r \<noteq> tx \<Longrightarrow> heap (sendTransaction env tx payer signers to lv cb ticks h) r = h r"
proof -
  obtain res h1 evs where sg: "signTransaction env tx payer signers h = (res, h1, evs)"
    by (cases "signTransaction env tx payer signers h") auto
  obtain res' h1' evs' where sg': "signTransaction env tx payer signers h' = (res', h1', evs')"
    by (cases "signTransaction env tx payer signers h'") auto
  from signTransaction_local [where h' = h' and h = h and tx = tx and env = env
      and signers = signers, OF assms] sg sg'
  have eq: "res' = res" "evs' = evs" "h1' tx = h1 tx"
    by simp_all
  have upd: "\<lparr>heap = h1', trace = tr, done_flag = d, mpc = m, lpc = l\<rparr>
               = \<lparr>heap = h1, trace = tr, done_flag = d, mpc = m, lpc = l\<rparr>\<lparr>heap := h1'\<rparr>"
    for tr d m l by simp
  have run: "sendTransaction env tx payer signers to lv cb ticks h'
               = (sendTransaction env tx payer signers to lv cb ticks h)\<lparr>heap := h1'\<rparr>"
    using sg sg' eq
    by (simp add: sendTransaction_def Let_def submission_run_heap_update [symmetric]
          split: sum.splits)
  have h1: "heap (sendTransaction env tx payer signers to lv cb ticks h) = h1"
    using sg
    by (simp add: sendTransaction_def Let_def heap_submission_run split: sum.splits)
  from run eq(3) h1
  show "\<exists>g. g tx = heap (sendTransaction env tx payer signers to lv cb ticks h) tx \<and>
           sendTransaction env tx payer signers to lv cb ticks h'
             = (sendTransaction env tx payer signers to lv cb ticks h)\<lparr>heap := g\<rparr>"
    by (intro exI [of _ h1']) simp
  assume "r \<noteq> tx"
  from signTransaction_local(4) [where h' = h' and h = h and tx = tx and env = env
      and signers = signers and r = r, OF assms this] sg h1
  show "heap (sendTransaction env tx payer signers to lv cb ticks h) r = h r"
    by simp
qed

section \<open>The combined promise of a batch\<close>

lemma settle_rejected:
  "snd (foldl promise_all_settle (vs, Rejected e) evs) = Rejected e"
proof (induction evs arbitrary: vs)
  case Nil
  then show ?case by simp
next
  case (Cons ev evs)
  obtain j r where ev: "ev = (j, r)" by (cases ev)
  show ?case
    unfolding ev by (cases r) (simp_all add: Cons.IH Let_def)
qed

lemma settle_others_pending:
  assumes "i < length vs" and "vs ! i = None"
    and "\<forall>(j, r) \<in> set evs. j \<noteq> i \<and> \<not> isl r"
  shows "snd (foldl promise_all_settle (vs, Pending) evs) = Pending \<and>
         fst (foldl promise_all_settle (vs, Pending) evs) ! i = None \<and>
         length (fst (foldl promise_all_settle (vs, Pending) evs)) = length vs"
  using assms
proof (induction evs arbitrary: vs)
  case Nil
  then show ?case by simp
next
  case (Cons ev evs)
  obtain j r where ev: "ev = (j, r)" by (cases ev)
  from Cons.prems(3) ev obtain v where r: "r = Inr v" and ji: "j \<noteq> i"
    by (cases r) auto
  show ?case
  proof (cases "j < length vs \<and> vs ! j = None")
    case True
    have "None \<in> set (vs[j := Some v])"
      using Cons.prems(1,2) ji by (metis length_list_update nth_list_update_neq nth_mem)
    with True have step: "promise_all_settle (vs, Pending) ev = (vs[j := Some v], Pending)"
      by (simp add: ev r Let_def)
    show ?thesis
      using Cons.IH [of "vs[j := Some v]"] Cons.prems ji
      by (simp add: step)
  next
    case False
    then have step: "promise_all_settle (vs, Pending) ev = (vs, Pending)"
      by (auto simp: ev r)
    show ?thesis
      using Cons.IH [of vs] Cons.prems by (simp add: step)
  qed
qed


lemma settle_all_fulfilled:
  assumes "\<forall>(j, r) \<in> set evs. r = Inr (v j)"
  shows "foldl promise_all_settle (replicate n None, if n = 0 then Fulfilled [] else Pending) evs
           = (map (\<lambda>j. if j \<in> fst ` set evs then Some (v j) else None) [0..<n],
              if {0..<n} \<subseteq> fst ` set evs then Fulfilled (map v [0..<n]) else Pending)"
  using assms
proof (induction evs rule: rev_induct)
  case Nil
  have "replicate n None = map (\<lambda>j. None) [0..<n]"
    by (rule nth_equalityI) simp_all
  then show ?case by auto
next
  case (snoc ev evs)
  obtain j r where ev: "ev = (j, r)" by (cases ev)
  with snoc.prems have r: "r = Inr (v j)" by simp
  let ?A = "fst ` set evs"
  let ?vs = "map (\<lambda>k. if k \<in> ?A then Some (v k) else None) [0..<n]"
  have IH: "foldl promise_all_settle (replicate n None, if n = 0 then Fulfilled [] else Pending) evs
              = (?vs, if {0..<n} \<subseteq> ?A then Fulfilled (map v [0..<n]) else Pending)"
    using snoc by simp
  have A': "fst ` set (evs @ [(j, Inr (v j))]) = insert j ?A"
    by simp
  show ?case
  proof (cases "j < n \<and> j \<notin> ?A")
    case True
    then have pend: "\<not> {0..<n} \<subseteq> ?A" by auto
    have upd: "?vs[j := Some (v j)]
                 = map (\<lambda>k. if k \<in> insert j ?A then Some (v k) else None) [0..<n]"
    proof (rule nth_equalityI)
      fix k
      assume "k < length (?vs[j := Some (v j)])"
      then have "k < n" by simp
      then show "?vs[j := Some (v j)] ! k
                   = map (\<lambda>k. if k \<in> insert j ?A then Some (v k) else None) [0..<n] ! k"
        using True by (cases "k = j") (simp_all add: nth_list_update)
    qed simp
    have none: "None \<in> set (map (\<lambda>k. if k \<in> insert j ?A then Some (v k) else None) [0..<n])
                  \<longleftrightarrow> \<not> {0..<n} \<subseteq> insert j ?A"
      by (auto simp: image_iff split: if_splits)
    have the: "{0..<n} \<subseteq> insert j ?A \<Longrightarrow>
               map the (map (\<lambda>k. if k \<in> insert j ?A then Some (v k) else None) [0..<n])
                 = map v [0..<n]"
      by (auto simp: subset_iff)
    have "promise_all_settle (?vs, Pending) (j, Inr (v j))
            = (map (\<lambda>k. if k \<in> insert j ?A then Some (v k) else None) [0..<n],
               if {0..<n} \<subseteq> insert j ?A then Fulfilled (map v [0..<n]) else Pending)"
      using True upd none the by (simp add: Let_def del: set_map map_map)
    then show ?thesis
      using pend by (simp only: foldl_append foldl_Cons foldl_Nil IH A' ev r if_False)
  next
    case False
    then have same: "map (\<lambda>k. if k \<in> insert j ?A then Some (v k) else None) [0..<n] = ?vs"
      and sub: "{0..<n} \<subseteq> insert j ?A \<longleftrightarrow> {0..<n} \<subseteq> ?A"
      by auto
    have cond: "\<not> (j < length ?vs \<and> ?vs ! j = None)"
    proof (cases "j < n")
      case True
      with False have "j \<in> ?A" by simp
      with True have "?vs ! j = Some (v j)" by simp
      then show ?thesis by simp
    next
      case False
      then show ?thesis by simp
    qed
    have "promise_all_settle (?vs, p) (j, Inr (v j)) = (?vs, p)" for p
      using cond by (simp only: promise_all_settle.simps if_False)
    then show ?thesis
      by (simp only: foldl_append foldl_Cons foldl_Nil IH A' ev r same sub)
  qed
qed


lemma settlement_cases:
  "settlement S = Some (Inl e) \<longleftrightarrow> mpc S = Threw e"
  "settlement S = Some (Inr t) \<longleftrightarrow> mpc S = Returned t"
  by (cases "mpc S"; simp)+

lemma settlements_mem:
  "(j, r) \<in> set (settlements slots order)
   \<longleftrightarrow> j \<in> set order \<and> j < length slots \<and> settlement (slots ! j) = Some r"
  unfolding settlements_def by (auto split: if_splits option.splits)

lemma promise_all_first_rejection:
  assumes "i < n"
    and "\<forall>(j, r) \<in> set evs. j \<noteq> i \<and> \<not> isl r"
  shows "promise_all n (evs @ (i, Inl e) # evs') = Rejected e"
proof -
  obtain vs p where st: "foldl promise_all_settle (replicate n None, Pending) evs = (vs, p)"
    by (cases "foldl promise_all_settle (replicate n None, Pending) evs") auto
  have "p = Pending"
    using settle_others_pending [of i "replicate n None" evs] assms st by simp
  then show ?thesis
    using assms(1) st by (simp add: promise_all_def settle_rejected)
qed

lemma threw_cases: "threw m \<longleftrightarrow> (\<exists>e. m = Threw e)"
  by (cases m) simp_all

lemma returned_cases: "returned m \<longleftrightarrow> (\<exists>t. m = Returned t)"
  by (cases m) simp_all

lemma settlements_append:
  "settlements slots (xs @ ys) = settlements slots xs @ settlements slots ys"
  by (simp add: settlements_def)

lemma settlements_Cons:
  "settlements slots (i # ys) =
     (if i < length slots
      then (case settlement (slots ! i) of None \<Rightarrow> [] | Some r \<Rightarrow> [(i, r)])
      else []) @ settlements slots ys"
  by (simp add: settlements_def)

text \<open>The first slot to fail rejects the batch.\<close>

lemma batch_first_rejection:
  assumes ord: "order = pre @ i # post" and il: "i < length slots"
    and ie: "mpc (slots ! i) = Threw e"
    and others: "\<forall>j\<in>set pre. j < length slots \<longrightarrow> \<not> threw (mpc (slots ! j))"
  shows "promise_all (length slots) (settlements slots order) = Rejected e"
proof -
  have "settlement (slots ! i) = Some (Inl e)"
    using ie by (simp only: settlement_cases)
  with il have fi: "settlements slots (i # post) = (i, Inl e) # settlements slots post"
    by (simp add: settlements_Cons del: settlement.simps)
  have pre: "\<forall>(j, r) \<in> set (settlements slots pre). j \<noteq> i \<and> \<not> isl r"
  proof (clarify, rule conjI)
    fix j r assume m: "(j, r) \<in> set (settlements slots pre)"
    then have j: "j \<in> set pre" "j < length slots" "settlement (slots ! j) = Some r"
      by (simp_all only: settlements_mem)
    from others j(1,2) have nt: "\<not> threw (mpc (slots ! j))" by blast
    with ie show "j \<noteq> i" by auto
    show "\<not> isl r"
    proof (cases r)
      case (Inl e')
      with j(3) have "settlement (slots ! j) = Some (Inl e')" by (simp only:)
      then have "mpc (slots ! j) = Threw e'" by (simp only: settlement_cases)
      with nt show ?thesis by simp
    next
      case (Inr t)
      then show ?thesis by simp
    qed
  qed
  have "settlements slots order = settlements slots pre @ (i, Inl e) # settlements slots post"
    unfolding ord settlements_append fi ..
  then show ?thesis
    using promise_all_first_rejection [OF il pre] by (simp only:)
qed

text \<open>
  While no slot has failed, the batch is pending until every slot has returned, and is
  then fulfilled with the transaction ids in the order of the slots.
\<close>

lemma batch_no_rejection:
  assumes nt: "\<forall>j\<in>set order. j < length slots \<longrightarrow> \<not> threw (mpc (slots ! j))"
  shows "promise_all (length slots) (settlements slots order) =
           (if \<forall>i<length slots. i \<in> set order \<and> returned (mpc (slots ! i))
            then Fulfilled (map txid_of slots) else Pending)"
proof -
  let ?evs = "settlements slots order"
  have ev: "\<forall>(j, r) \<in> set ?evs. r = Inr (txid_of (slots ! j))"
  proof clarify
    fix j r assume "(j, r) \<in> set ?evs"
    then have j: "j \<in> set order" "j < length slots" "settlement (slots ! j) = Some r"
      by (simp_all only: settlements_mem)
    from nt j(1,2) have "\<not> threw (mpc (slots ! j))" by blast
    with j(3) show "r = Inr (txid_of (slots ! j))"
      by (cases "mpc (slots ! j)") (auto simp: txid_of_def)
  qed
  have cover: "{0..<length slots} \<subseteq> fst ` set ?evs
                 \<longleftrightarrow> (\<forall>i<length slots. i \<in> set order \<and> returned (mpc (slots ! i)))"
  proof
    assume sub: "{0..<length slots} \<subseteq> fst ` set ?evs"
    show "\<forall>i<length slots. i \<in> set order \<and> returned (mpc (slots ! i))"
    proof (intro allI impI)
      fix i assume "i < length slots"
      with sub have "i \<in> fst ` set ?evs" by auto
      then obtain r where "(i, r) \<in> set ?evs" by auto
      then have i: "i \<in> set order" "i < length slots" "settlement (slots ! i) = Some r"
        by (simp_all only: settlements_mem)
      from nt i(1,2) have "\<not> threw (mpc (slots ! i))" by blast
      with i(3) have "returned (mpc (slots ! i))"
        by (cases "mpc (slots ! i)") auto
      with i(1) show "i \<in> set order \<and> returned (mpc (slots ! i))" ..
    qed
  next
    assume all: "\<forall>i<length slots. i \<in> set order \<and> returned (mpc (slots ! i))"
    show "{0..<length slots} \<subseteq> fst ` set ?evs"
    proof
      fix j assume "j \<in> {0..<length slots}"
      then have jl: "j < length slots" by simp
      with all have jo: "j \<in> set order" and "returned (mpc (slots ! j))" by blast+
      then obtain t where "mpc (slots ! j) = Returned t"
        by (auto simp: returned_cases)
      then have "settlement (slots ! j) = Some (Inr t)" by (simp only: settlement_cases)
      with jo jl have mem: "(j, Inr t) \<in> set ?evs"
        by (simp only: settlements_mem simp_thms)
      show "j \<in> fst ` set ?evs"
        by (rule image_eqI [of _ fst "(j, Inr t)"]) (simp, rule mem)
    qed
  qed
  have ids: "map (\<lambda>j. txid_of (slots ! j)) [0..<length slots] = map txid_of slots"
    by (rule nth_equalityI) simp_all
  show ?thesis
    using settle_all_fulfilled [OF ev, of "length slots"]
    unfolding promise_all_def cover ids by (simp only: snd_conv)
qed

text \<open>The first listed slot that has failed, if there is one.\<close>

lemma first_failed_slot:
  assumes "\<not> (\<forall>j\<in>set order. j < length slots \<longrightarrow> \<not> threw (mpc (slots ! j)))"
  shows "\<exists>pre i post e. order = pre @ i # post \<and> i < length slots \<and>
           mpc (slots ! i) = Threw e \<and>
           (\<forall>j\<in>set pre. j < length slots \<longrightarrow> \<not> threw (mpc (slots ! j)))"
proof -
  from assms have "\<exists>j\<in>set order. j < length slots \<and> threw (mpc (slots ! j))" by blast
  from split_list_first_prop [OF this]
  obtain pre i post where ord: "order = pre @ i # post"
    and i: "i < length slots \<and> threw (mpc (slots ! i))"
    and pre: "\<forall>j\<in>set pre. \<not> (j < length slots \<and> threw (mpc (slots ! j)))"
    by blast
  from i obtain e where "mpc (slots ! i) = Threw e" by (auto simp: threw_cases)
  with ord i pre show ?thesis by blast
qed

lemma batch_fulfilled_only:
  assumes "promise_all (length slots) (settlements slots order) = Fulfilled ids"
  shows "ids = map txid_of slots \<and>
         (\<forall>i<length slots. i \<in> set order \<and> mpc (slots ! i) = Returned (ids ! i))"
proof (cases "\<forall>j\<in>set order. j < length slots \<longrightarrow> \<not> threw (mpc (slots ! j))")
  case True
  from batch_no_rejection [OF True] assms
  have all: "\<forall>i<length slots. i \<in> set order \<and> returned (mpc (slots ! i))"
    and ids: "ids = map txid_of slots"
    by (simp_all split: if_splits)
  have "mpc (slots ! i) = Returned (ids ! i)" if "i < length slots" for i
    using all that unfolding ids
    by (cases "mpc (slots ! i)") (auto simp: txid_of_def)
  with all ids show ?thesis by blast
next
  case False
  from first_failed_slot [OF False] obtain pre i post e where
    "order = pre @ i # post" "i < length slots" "mpc (slots ! i) = Threw e"
    "\<forall>j\<in>set pre. j < length slots \<longrightarrow> \<not> threw (mpc (slots ! j))"
    by blast
  from batch_first_rejection [OF this] assms show ?thesis by simp
qed

lemma batch_rejected_only:
  assumes "promise_all (length slots) (settlements slots order) = Rejected e"
  shows "\<exists>pre i post. order = pre @ i # post \<and> i < length slots \<and>
           mpc (slots ! i) = Threw e \<and>
           (\<forall>j\<in>set pre. j < length slots \<longrightarrow> \<not> threw (mpc (slots ! j)))"
proof (cases "\<forall>j\<in>set order. j < length slots \<longrightarrow> \<not> threw (mpc (slots ! j))")
  case True
  from batch_no_rejection [OF True] assms show ?thesis
    by (simp split: if_splits)
next
  case False
  from first_failed_slot [OF False] obtain pre i post e' where
    f: "order = pre @ i # post" "i < length slots" "mpc (slots ! i) = Threw e'"
    "\<forall>j\<in>set pre. j < length slots \<longrightarrow> \<not> threw (mpc (slots ! j))"
    by blast
  from batch_first_rejection [OF f] assms have "e' = e" by simp
  with f show ?thesis by blast
qed

lemma sendTransactions_Some:
  "sendTransactions runs order txs payer signers to lv h = Some (slots, result) \<longleftrightarrow>
     distinct txs \<and> length runs = length txs \<and>
     slots = map (\<lambda>i. sendTransaction (fst (runs ! i)) (txs ! i) payer signers
                        (Some (case to of None \<Rightarrow> 30000 | Some t \<Rightarrow> t))
                        (Some (case lv of None \<Rightarrow> ''confirmed'' | Some l \<Rightarrow> l))
                        None (snd (runs ! i)) h) [0..<length txs] \<and>
     result = promise_all (length txs) (settlements slots order)"
proof -
  have "map (\<lambda>(tx, (env, ticks)).
               sendTransaction env tx payer signers
                 (Some (case to of None \<Rightarrow> 30000 | Some t \<Rightarrow> t))
                 (Some (case lv of None \<Rightarrow> ''confirmed'' | Some l \<Rightarrow> l)) None ticks h)
          (zip txs runs)
        = map (\<lambda>i. sendTransaction (fst (runs ! i)) (txs ! i) payer signers
                        (Some (case to of None \<Rightarrow> 30000 | Some t \<Rightarrow> t))
                        (Some (case lv of None \<Rightarrow> ''confirmed'' | Some l \<Rightarrow> l))
                        None (snd (runs ! i)) h) [0..<length txs]"
    if "length runs = length txs"
    using that by (intro nth_equalityI) (simp_all add: split_beta)
  then show ?thesis
    by (auto simp: sendTransactions_def Let_def)
qed

section \<open>Evaluating the example runs\<close>

text \<open>The clock readings and limits of the example runs, as doubles.\<close>

lemma getUnixTs_values:
  "getUnixTs 0 = 0" "getUnixTs 500 = 1 / 2" "getUnixTs 1000 = 1" "getUnixTs 1500 = 3 / 2"
  "getUnixTs 3000 = 3" "getUnixTs 5000 = 5" "getUnixTs 31000 = 31"
  by code_simp+

lemma double_values:
  "double_sub (1 / 2) 0 = 1 / 2" "double_sub 1 0 = 1" "double_sub (3 / 2) 0 = 3 / 2"
  "double_sub 3 0 = 3" "double_sub 5 0 = 5" "double_sub 31 0 = 31"
  "double_div 30000 1000 = 30"
  by code_simp+

text \<open>
  Where the rounding shows: 1100 ms after the start the elapsed time computed by the loop
  is 1.0999999046325684 s, which is less than the double nearest to 1.1.
\<close>

lemma rounding_values:
  "getUnixTs 1700000000000 = 1700000000"
  "getUnixTs 1700000001100 = 3565158402306867 / 2097152"
  "double_sub (3565158402306867 / 2097152) 1700000000 = 2306867 / 2097152"
  "double_div 1100 1000 = 2476979795053773 / 2251799813685248"
  by code_simp+

lemmas eval_defs = sendTransaction_def sendSignedTransaction_def signTransaction_def
  prepare_transaction_def call_method_def submission_step_def broadcast_wake_def
  main_resume_def catch_block_def after_simulation_def finally_block_def simulateResult_def
  failure_message_def getUnixTs_values double_values example_env_def example_heap_def
  example_account_def Let_def

lemma example_run_trace:
  "trace example_run =
     [GetRecentBlockhash None, SendRawTransaction [2] True, Sleep 1000,
      AwaitConfirmation ''sig'' 30000 ''processed'', SendRawTransaction [2] True, Sleep 2000,
      SimulateTransaction 0 ''processed'', SendRawTransaction [2] True, Sleep 2000, SetDone]"
  by (simp add: example_run_def example_ticks_def eval_defs)

lemma example_run_mpc:
  "mpc example_run = Threw (Error ''Transaction failed: insufficient funds'')"
  by (simp add: example_run_def example_ticks_def eval_defs)

lemma example_run_flags: "done_flag example_run = Some True" "lpc example_run = Exited"
  by (simp_all add: example_run_def example_ticks_def eval_defs)

lemma unserializable_run_state:
  "done_flag unserializable_run = None" "lpc unserializable_run = NotStarted"
  "mpc unserializable_run = Threw (Error ''Signature verification failed'')"
  "trace unserializable_run = []"
  by (simp_all add: unserializable_run_def unserializable_env_def eval_defs)

lemma timeout_run_state:
  "mpc timeout_run = Threw (Error ''Timed out awaiting confirmation on transaction'')"
  "done_flag timeout_run = Some True"
  "trace timeout_run =
     [GetRecentBlockhash None, SendRawTransaction [2] True, Sleep 1000,
      AwaitConfirmation ''sig'' 30000 ''processed'', SendRawTransaction [2] True, Sleep 2000,
      SetDone]"
  by (simp_all add: timeout_run_def timeout_env_def eval_defs)

lemma unreachable_run_state:
  "mpc unreachable_run = Threw (Error ''Transaction failed'')"
  "done_flag unreachable_run = Some True"
  "SimulateTransaction 0 ''processed'' \<in> set (trace unreachable_run)"
  by (simp_all add: unreachable_run_def unreachable_env_def example_ticks_def eval_defs)

lemma overdue_run_state: "done_flag overdue_run = Some False" "lpc overdue_run = Exited"
  by (simp_all add: overdue_run_def eval_defs)

lemma confirmed_run_state:
  "lpc (confirmed_run [MainResume]) = Sleeping"
  "done_flag (confirmed_run [MainResume]) = Some True"
  "lpc (confirmed_run [MainResume, LoopWake 500]) = Exited"
  by (simp_all add: confirmed_run_def confirming_env_def eval_defs)


lemma wallet_run_state:
  "trace wallet_run =
     [GetRecentBlockhash None, WalletSignTransaction 0, SendRawTransaction [1] True, Sleep 1000,
      AwaitConfirmation ''sig'' 30000 ''processed'', SendRawTransaction [1] True, Sleep 2000,
      SimulateTransaction 0 ''processed'', SendRawTransaction [1] True, Sleep 2000, SetDone]"
  "calls (heap wallet_run 0) = [SetSigners [''wallet'']]"
  "calls (heap wallet_run 1) = [SetSigners [''wallet''], Sign [Some (WalletAdapter ''wallet'' True)]]"
  by (simp_all add: wallet_run_def example_ticks_def eval_defs)

lemma batch_slot_mpc:
  "mpc (batch_slot confirming_env 0 [MainResume]) = Returned ''sig''"
  "mpc (batch_slot example_env (Suc 0) [MainResume, MainResume])
     = Threw (Error ''Transaction failed: insufficient funds'')"
  "mpc (batch_slot confirming_env 2 [MainResume]) = Returned ''sig''"
  by (simp_all add: batch_slot_def confirming_env_def eval_defs)

lemma batch_slot_settlement:
  "settlement (batch_slot confirming_env 0 [MainResume]) = Some (Inr ''sig'')"
  "settlement (batch_slot example_env (Suc 0) [MainResume, MainResume])
     = Some (Inl (Error ''Transaction failed: insufficient funds''))"
  "settlement (batch_slot confirming_env 2 [MainResume]) = Some (Inr ''sig'')"
  by (simp_all only: settlement_cases batch_slot_mpc)

lemma sendTransactions_three:
  "sendTransactions [(e0, t0), (e1, t1), (e2, t2)] order [0, 1, 2] (Account example_account) []
     None None example_heap
   = Some ([batch_slot e0 0 t0, batch_slot e1 1 t1, batch_slot e2 2 t2],
           promise_all (Suc (Suc (Suc 0)))
             (settlements [batch_slot e0 0 t0, batch_slot e1 1 t1, batch_slot e2 2 t2] order))"
  by (simp add: sendTransactions_def Let_def batch_slot_def)

lemma sendTransactions_two:
  "sendTransactions [(e0, t0), (e1, t1)] order [0, 1] (Account example_account) []
     None None example_heap
   = Some ([batch_slot e0 0 t0, batch_slot e1 1 t1],
           promise_all (Suc (Suc 0))
             (settlements [batch_slot e0 0 t0, batch_slot e1 1 t1] order))"
  by (simp add: sendTransactions_def Let_def batch_slot_def)

lemma example_batch_value:
  "example_batch =
     Some ([batch_slot confirming_env 0 [MainResume],
            batch_slot example_env 1 [MainResume, MainResume],
            batch_slot confirming_env 2 [MainResume]],
           Rejected (Error ''Transaction failed: insufficient funds''))"
proof -
  have ev: "settlements [batch_slot confirming_env 0 [MainResume],
                         batch_slot example_env 1 [MainResume, MainResume],
                         batch_slot confirming_env 2 [MainResume]] [0, 1, 2]
            = [(0, Inr ''sig''), (1, Inl (Error ''Transaction failed: insufficient funds'')),
               (2, Inr ''sig'')]"
    by (simp add: settlements_def batch_slot_settlement del: settlement.simps)
  have res: "promise_all (Suc (Suc (Suc 0)))
               [(0, Inr ''sig''), (1, Inl (Error ''Transaction failed: insufficient funds'')),
                (2, Inr ''sig'')]
             = Rejected (Error ''Transaction failed: insufficient funds'')"
    by (simp add: promise_all_def Let_def)
  show ?thesis
    unfolding example_batch_def sendTransactions_three ev res ..
qed

lemma batch_slot_pending:
  "settlement (batch_slot example_env (Suc 0) [MainResume]) = None"
  by (simp add: batch_slot_def eval_defs)

lemma batch_slot_settlement_1:
  "settlement (batch_slot confirming_env (Suc 0) [MainResume]) = Some (Inr ''sig'')"
  by (simp add: batch_slot_def confirming_env_def eval_defs)

lemma pending_batch_value:
  "pending_batch =
     Some ([batch_slot confirming_env 0 [MainResume], batch_slot example_env 1 [MainResume]],
           Pending)"
proof -
  have ev: "settlements [batch_slot confirming_env 0 [MainResume],
                         batch_slot example_env 1 [MainResume]] [0, 1]
            = [(0, Inr ''sig'')]"
    by (simp add: settlements_def batch_slot_settlement batch_slot_pending
          del: settlement.simps)
  have res: "promise_all (Suc (Suc 0)) [(0, Inr ''sig'')] = (Pending :: txid list promise)"
    by (simp add: promise_all_def Let_def)
  show ?thesis
    unfolding pending_batch_def sendTransactions_two ev res ..
qed

lemma fulfilled_batch_value:
  "fulfilled_batch =
     Some ([batch_slot confirming_env 0 [MainResume], batch_slot confirming_env 1 [MainResume]],
           Fulfilled [''sig'', ''sig''])"
proof -
  have ev: "settlements [batch_slot confirming_env 0 [MainResume],
                         batch_slot confirming_env 1 [MainResume]] [1, 0]
            = [(1, Inr ''sig''), (0, Inr ''sig'')]"
    by (simp add: settlements_def batch_slot_settlement batch_slot_settlement_1
          del: settlement.simps)
  have res: "promise_all (Suc (Suc 0)) [(1, Inr ''sig''), (0, Inr ''sig'')]
               = Fulfilled [''sig'', ''sig'']"
    by (simp add: promise_all_def Let_def)
  show ?thesis
    unfolding fulfilled_batch_def sendTransactions_two ev res ..
qed

lemma rounding_run_state:
  "lpc (rounding_run []) = Sleeping" "done_flag (rounding_run []) = Some False"
  "trace (rounding_run [LoopWake 1700000001100]) =
     trace (rounding_run []) @ [SendRawTransaction [2] True, Sleep 2000]"
  "lpc (rounding_run [LoopWake 1700000001100]) = Sleeping"
  by (simp_all add: rounding_run_def rounding_env_def rounding_values eval_defs)


lemma example_starts:
  "sendTransaction_starts example_env 0 (Account example_account) [] example_heap
     = Some ([2], ''sig'')"
  "sendSignedTransaction_starts example_env 0 example_heap = Some ([0], ''sig'')"
  "sendSignedTransaction_starts confirming_env 0 example_heap = Some ([0], ''sig'')"
  "sendSignedTransaction_starts unserializable_env 0 example_heap = None"
  "sendTransaction_starts rounding_env 0 (Account example_account) [] example_heap
     = Some ([2], ''sig'')"
  by (simp_all add: sendTransaction_starts_def sendSignedTransaction_starts_def first_send_def
        confirming_env_def unserializable_env_def rounding_env_def eval_defs)

lemma confirmed_run_returns:
  "mpc (confirmed_run [MainResume]) = Returned ''sig''"
  "trace (confirmed_run [MainResume]) =
     [SendRawTransaction [0] True, Sleep 500, AwaitConfirmation ''sig'' 30000 ''processed'',
      SetDone]"
  by (simp_all add: confirmed_run_def confirming_env_def eval_defs)

lemma batch_slot_returns:
  "done_flag (batch_slot confirming_env 0 [MainResume]) = Some True"
  "trace (batch_slot confirming_env 0 [MainResume]) =
     [GetRecentBlockhash None, SendRawTransaction [2] True, Sleep 1000,
      AwaitConfirmation ''sig'' 30000 ''confirmed'', SetDone]"
  by (simp_all add: batch_slot_def confirming_env_def eval_defs)

lemma batch_starts:
  "sendTransaction_starts confirming_env 0 (Account example_account) [] example_heap
     = Some ([2], ''sig'')"
  by (simp add: sendTransaction_starts_def first_send_def confirming_env_def eval_defs)

lemma rounding_env_clock: "startClock rounding_env = 1700000000000"
  by (simp add: rounding_env_def)


section \<open>The claims\<close>

text \<open>
  C1. For every submission, by \<open>sendTransaction\<close> or by \<open>sendSignedTransaction\<close>,
  and on every exit path (success, timeout, on-chain failure, any exception thrown inside
  the \<open>try\<close>), the flag \<open>done\<close> goes from false to true exactly once, and the
  broadcast loop sends nothing after it. Under every schedule: the flag exists exactly if
  the signing, the serialization and the first send succeeded; the flag is true exactly
  if the call has exited after that, by returning or by throwing, and \<open>done = true\<close>
  has run once then and not at all before; a call that returns its transaction id has set
  the flag, once; nothing is sent after the flag is set; and the caller exits after at
  most two resumptions. A call that fails before \<open>let done = false\<close> throws, has no
  flag and has started no loop.
\<close>

theorem done_flag_set_exactly_once:
  "done_exactly_once ticks (sendTransaction_starts env tx payer signers h \<noteq> None)
     (sendTransaction env tx payer signers to lv cb ticks h) \<and>
   (returned (mpc (sendTransaction env tx payer signers to lv cb ticks h)) \<longrightarrow>
      done_flag (sendTransaction env tx payer signers to lv cb ticks h) = Some True \<and>
      count_list (trace (sendTransaction env tx payer signers to lv cb ticks h)) SetDone = 1) \<and>
   done_exactly_once ticks' (sendSignedTransaction_starts env' tx' h' \<noteq> None)
     (sendSignedTransaction env' tx' to' lv' ticks' h') \<and>
   (returned (mpc (sendSignedTransaction env' tx' to' lv' ticks' h')) \<longrightarrow>
      done_flag (sendSignedTransaction env' tx' to' lv' ticks' h') = Some True \<and>
      count_list (trace (sendSignedTransaction env' tx' to' lv' ticks' h')) SetDone = 1)"
proof -
  have flag: "done_exactly_once sched started S \<and>
              (returned (mpc S) \<longrightarrow> done_flag S = Some True \<and> count_list (trace S) SetDone = 1)"
    if out: "if started then \<exists>raw txid. submission_inv c e t raw txid S
             else failed_before_flag e t S"
      and ex: "2 \<le> count_list sched MainResume \<Longrightarrow> exited (mpc S)"
    for sched started S c e t
  proof (cases started)
    case True
    with out obtain raw txid where inv: "submission_inv c e t raw txid S" by auto
    show ?thesis
      using True ex inv_flag_facts [OF inv]
      unfolding done_exactly_once_def by (cases "mpc S") auto
  next
    case False
    with out have f: "failed_before_flag e t S" by simp
    then have "threw (mpc S)" by (auto simp: failed_before_flag_def)
    with False failed_flag_facts [OF f] show ?thesis
      unfolding done_exactly_once_def by (cases "mpc S") simp_all
  qed
  have a: "if sendTransaction_starts env tx payer signers h \<noteq> None
           then \<exists>raw txid. submission_inv ''processed'' env tx raw txid
                  (sendTransaction env tx payer signers to lv cb ticks h)
           else failed_before_flag env tx (sendTransaction env tx payer signers to lv cb ticks h)"
    using sendTransaction_started_inv [of env tx payer signers h _ _ to lv cb ticks]
      sendTransaction_not_started [of env tx payer signers h to lv cb ticks]
    by (cases "sendTransaction_starts env tx payer signers h") auto
  have b: "if sendSignedTransaction_starts env' tx' h' \<noteq> None
           then \<exists>raw txid. submission_inv ''single'' env' tx' raw txid
                  (sendSignedTransaction env' tx' to' lv' ticks' h')
           else failed_before_flag env' tx' (sendSignedTransaction env' tx' to' lv' ticks' h')"
    using sendSignedTransaction_started_inv [of env' tx' h' _ _ to' lv' ticks']
      sendSignedTransaction_not_started [of env' tx' h' to' lv' ticks']
    by (cases "sendSignedTransaction_starts env' tx' h'") auto
  from flag [OF a sendTransaction_exits] flag [OF b sendSignedTransaction_exits]
  show ?thesis by blast
qed

theorem done_flag_set_exactly_once_witness:
  "2 \<le> count_list example_ticks MainResume \<and>
   sendTransaction_starts example_env 0 (Account example_account) [] example_heap \<noteq> None \<and>
   threw (mpc example_run) \<and> done_flag example_run = Some True \<and>
   count_list (trace example_run) SetDone = 1 \<and>
   sent_after_done (trace example_run) = [] \<and>
   sendSignedTransaction_starts confirming_env 0 example_heap \<noteq> None \<and>
   returned (mpc (confirmed_run [MainResume])) \<and>
   done_flag (confirmed_run [MainResume]) = Some True \<and>
   count_list (trace (confirmed_run [MainResume])) SetDone = 1 \<and>
   returned (mpc (batch_slot confirming_env 0 [MainResume])) \<and>
   done_flag (batch_slot confirming_env 0 [MainResume]) = Some True \<and>
   count_list (trace (batch_slot confirming_env 0 [MainResume])) SetDone = 1 \<and>
   sendSignedTransaction_starts unserializable_env 0 example_heap = None \<and>
   threw (mpc unserializable_run) \<and> done_flag unserializable_run = None \<and>
   lpc unserializable_run = NotStarted"
  using done_flag_set_exactly_once [of example_ticks example_env 0 "Account example_account"
      "[]" example_heap None None None "[MainResume]" confirming_env 0 example_heap None None,
      folded example_run_def confirmed_run_def]
    done_flag_set_exactly_once [of "[MainResume]" confirming_env 0 "Account example_account"
      "[]" example_heap "Some 30000" "Some ''confirmed''" None "[MainResume, MainResume]"
      unserializable_env 0 example_heap None None,
      folded batch_slot_def unserializable_run_def]
  by (simp add: done_exactly_once_def example_starts batch_starts example_run_mpc
        example_run_flags unserializable_run_state confirmed_run_returns confirmed_run_state
        batch_slot_mpc batch_slot_returns example_ticks_def)

text \<open>
  C3, as claimed: whenever the confirmation watcher raises a timeout or an on-chain
  failure, the simulation is invoked before the error is surfaced. On the timeout path
  it is not: the \<open>catch\<close> block throws at \<open>if (err.timeout)\<close> before the
  simulation is asked for. In the run below the trace holds no simulation.
\<close>

theorem timeout_path_skips_simulation:
  "mpc timeout_run = Threw (Error ''Timed out awaiting confirmation on transaction'') \<and>
   SimulateTransaction 0 ''processed'' \<notin> set (trace timeout_run)"
  by (simp add: timeout_run_state)

text \<open>
  C3, amended: when the confirmation watcher raises an error that is not a timeout, the
  simulation is invoked before \<open>done = true\<close> and before the error is surfaced, and
  the error surfaced is the one built from the simulation; when it raises a timeout, the
  error \<open>Timed out awaiting confirmation on transaction\<close> is surfaced and no simulation
  is ever invoked. This holds for \<open>sendTransaction\<close> (simulating at
  \<open>processed\<close>) and for \<open>sendSignedTransaction\<close> (at \<open>single\<close>).
\<close>

theorem simulation_unless_timeout:
  assumes "confirmation env = Some e"
    and "S = sendTransaction env tx payer signers to lv cb ticks h \<and> c = ''processed'' \<or>
         S = sendSignedTransaction env tx to lv ticks h \<and> c = ''single''"
    and "exited (mpc S)" and "done_flag S \<noteq> None"
  shows "if timeout_of e
         then mpc S = Threw (Error ''Timed out awaiting confirmation on transaction'') \<and>
              (\<forall>r c'. SimulateTransaction r c' \<notin> set (trace S))
         else SimulateTransaction tx c \<in> set (takeWhile (\<lambda>e. e \<noteq> SetDone) (trace S)) \<and>
              mpc S = Threw (Error (failure_message (JSON_stringify env) (simulateResult env)))"
proof -
  have "failed_before_flag env tx S \<or> (\<exists>raw txid. submission_inv c env tx raw txid S)"
    using assms(2) sendTransaction_outcome [of env tx payer signers to lv cb ticks h]
      sendSignedTransaction_outcome [of env tx to lv ticks h]
    by auto
  then obtain raw txid where inv: "submission_inv c env tx raw txid S"
    using assms(4) by (auto simp: failed_before_flag_def)
  show ?thesis
    using inv_exit_cause [OF inv assms(3)] inv_simulate_cause [OF inv] assms(1)
    by (auto split: if_splits)
qed

theorem simulation_unless_timeout_witness:
  "confirmation example_env = Some (Thrown False ''InstructionError'') \<and>
   exited (mpc example_run) \<and> done_flag example_run \<noteq> None \<and>
   SimulateTransaction 0 ''processed''
     \<in> set (takeWhile (\<lambda>e. e \<noteq> SetDone) (trace example_run))"
  using simulation_unless_timeout [where env = example_env
      and e = "Thrown False ''InstructionError''" and S = example_run and tx = 0
      and payer = "Account example_account" and signers = "[]" and to = None and lv = None
      and cb = None and ticks = example_ticks and h = example_heap and c = "''processed''"]
  by (simp add: example_run_def [symmetric] example_run_mpc example_run_flags)
     (simp add: example_env_def)

text \<open>
  C4, as claimed: for the simulation logs \<open>Program log: step1\<close>,
  \<open>Program log: insufficient funds\<close>, \<open>Program consumed 100 units\<close> the message
  equals \<open>insufficient funds\<close>. The message of the error the client throws is
  \<open>Transaction failed: insufficient funds\<close>: the content of the line is appended to a
  fixed prefix.
\<close>

theorem diagnosis_message_has_prefix:
  "mpc example_run = Threw (Error ''Transaction failed: insufficient funds'') \<and>
   mpc example_run \<noteq> Threw (Error ''insufficient funds'')"
  by (simp add: example_run_mpc)

text \<open>
  C4, amended: when the confirmation failed, the simulation succeeded and reports a
  truthy on-chain error with a log list, the message of the error thrown is
  \<open>Transaction failed: \<close> followed by the content, stripped of the tag
  \<open>Program log: \<close>, of the last log line that starts with the tag; if no line starts
  with the tag, the message is \<open>JSON.stringify\<close> of the on-chain error payload, with
  no prefix.
\<close>

theorem diagnosis_from_last_program_log:
  assumes "simulation env = Inr r" and "truthy (err r)" and "logs r = Some ls"
    and "S = sendTransaction env tx payer signers to lv cb ticks h \<or>
         S = sendSignedTransaction env tx to lv ticks h"
    and "SimulateTransaction tx' c \<in> set (trace S)" and "exited (mpc S)"
  shows "mpc S = Threw (Error
           (case find (prefix ''Program log: '') (rev ls) of
              Some line \<Rightarrow> ''Transaction failed: '' @ drop (length ''Program log: '') line
            | None \<Rightarrow> JSON_stringify env (err r)))"
proof -
  have "failed_before_flag env tx S \<or> (\<exists>c raw txid. submission_inv c env tx raw txid S)"
    using assms(4) sendTransaction_outcome [of env tx payer signers to lv cb ticks h]
      sendSignedTransaction_outcome [of env tx to lv ticks h]
    by auto
  then obtain c0 raw txid where inv: "submission_inv c0 env tx raw txid S"
    using assms(5) by (auto simp: failed_before_flag_def)
  have "mpc S = Threw (Error (failure_message (JSON_stringify env) (simulateResult env)))"
    by (rule inv_after_simulate [OF inv assms(5,6)])
  moreover have "failure_message (JSON_stringify env) (simulateResult env) =
      (case find (prefix ''Program log: '') (rev ls) of
         Some line \<Rightarrow> ''Transaction failed: '' @ drop (length ''Program log: '') line
       | None \<Rightarrow> JSON_stringify env (err r))"
    using assms(1-3) scan_logs_find [of "length ls" ls]
    by (simp add: failure_message_def simulateResult_def split: option.splits)
  ultimately show ?thesis by simp
qed

theorem diagnosis_from_last_program_log_witness:
  "simulation example_env =
     Inr \<lparr>err = ErrObject ''InstructionError'',
          logs = Some [''Program log: step1'', ''Program log: insufficient funds'',
                       ''Program consumed 100 units'']\<rparr> \<and>
   truthy (ErrObject ''InstructionError'') \<and>
   SimulateTransaction 0 ''processed'' \<in> set (trace example_run) \<and>
   exited (mpc example_run) \<and>
   mpc example_run = Threw (Error ''Transaction failed: insufficient funds'')"
  using diagnosis_from_last_program_log [of example_env
      "\<lparr>err = ErrObject ''InstructionError'',
        logs = Some [''Program log: step1'', ''Program log: insufficient funds'',
                     ''Program consumed 100 units'']\<rparr>"
      "[''Program log: step1'', ''Program log: insufficient funds'',
        ''Program consumed 100 units'']"
      example_run 0 "Account example_account" "[]" None None None example_ticks example_heap
      0 "''processed''"]
  by (simp add: example_run_def [symmetric] example_run_trace)
     (simp add: example_env_def example_run_mpc)

text \<open>
  C8. If the simulation call itself throws (the endpoint is unreachable, say), a
  submission that has asked for the simulation still fails, and with the generic message
  \<open>Transaction failed\<close>: the simulation's own error is swallowed and is not the error
  surfaced.
\<close>

theorem simulation_failure_gives_generic_message:
  assumes "simulation env = Inl e"
    and "S = sendTransaction env tx payer signers to lv cb ticks h \<or>
         S = sendSignedTransaction env tx to lv ticks h"
    and "SimulateTransaction tx' c \<in> set (trace S)" and "exited (mpc S)"
  shows "mpc S = Threw (Error ''Transaction failed'')"
proof -
  have "failed_before_flag env tx S \<or> (\<exists>c raw txid. submission_inv c env tx raw txid S)"
    using assms(2) sendTransaction_outcome [of env tx payer signers to lv cb ticks h]
      sendSignedTransaction_outcome [of env tx to lv ticks h]
    by auto
  then obtain c0 raw txid where inv: "submission_inv c0 env tx raw txid S"
    using assms(3) by (auto simp: failed_before_flag_def)
  have "mpc S = Threw (Error (failure_message (JSON_stringify env) (simulateResult env)))"
    by (rule inv_after_simulate [OF inv assms(3,4)])
  then show ?thesis
    using assms(1) by (simp add: failure_message_def simulateResult_def)
qed

theorem simulation_failure_gives_generic_message_witness:
  "simulation unreachable_env = Inl (Thrown False ''fetch failed'') \<and>
   SimulateTransaction 0 ''processed'' \<in> set (trace unreachable_run) \<and>
   exited (mpc unreachable_run) \<and>
   mpc unreachable_run = Threw (Error ''Transaction failed'')"
  using simulation_failure_gives_generic_message [of unreachable_env
      "Thrown False ''fetch failed''" unreachable_run 0 "Account example_account" "[]" None
      None None example_ticks example_heap 0 "''processed''"]
  by (simp add: unreachable_run_def [symmetric] unreachable_run_state)
     (simp add: unreachable_env_def)

text \<open>
  C5, as claimed: the broadcast loop has no timeout condition of its own and exits only
  on observing the flag. The loop's condition is
  \<open>!done && getUnixTs() - startTime < timeout / 1000\<close>: woken 31 seconds after the
  start with the default timeout, it exits although the flag is still false.
\<close>

theorem loop_exits_on_clock_alone:
  "done_flag overdue_run = Some False \<and> lpc overdue_run = Exited"
  by (simp add: overdue_run_state)

text \<open>
  C5, amended: the timeout is given to the confirmation watcher and also bounds the
  broadcast loop. A call that gets as far as the flag calls the watcher once, with the
  transaction id of the first send, the timeout and the confirmation level. In
  \<open>sendTransaction\<close> the loop, when it wakes, resends the serialized bytes and sleeps
  again if and only if the flag is false and \<open>getUnixTs() - startTime\<close> is less than
  \<open>timeout / 1000\<close>, both computed in floating point; otherwise it exits without
  sending. In \<open>sendSignedTransaction\<close> the loop exits without sending when it wakes
  and finds the flag true.
\<close>

theorem loop_stops_on_flag_or_clock:
  assumes "S = sendTransaction env tx payer signers to lv cb ticks h"
    and "S' = sendTransaction env tx payer signers to lv cb (ticks @ [LoopWake now]) h"
    and "T = sendSignedTransaction env' tx' to' lv' ticks' h'"
    and "T' = sendSignedTransaction env' tx' to' lv' (ticks' @ [LoopWake now']) h'"
  shows "(\<forall>raw txid. sendTransaction_starts env tx payer signers h = Some (raw, txid) \<longrightarrow>
            awaited (trace S) = [(txid, case to of None \<Rightarrow> 30000 | Some t \<Rightarrow> t,
                                  case lv of None \<Rightarrow> ''processed'' | Some l \<Rightarrow> l)] \<and>
            (lpc S = Sleeping \<longrightarrow>
               (if done_flag S = Some False \<and>
                   double_sub (getUnixTs now) (getUnixTs (startClock env))
                     < double_div (case to of None \<Rightarrow> 30000 | Some t \<Rightarrow> t) 1000
                then lpc S' = Sleeping \<and>
                     trace S' = trace S @ [SendRawTransaction raw True, Sleep 2000]
                else lpc S' = Exited \<and> trace S' = trace S))) \<and>
         (\<forall>raw txid. sendSignedTransaction_starts env' tx' h' = Some (raw, txid) \<longrightarrow>
            awaited (trace T) = [(txid, case to' of None \<Rightarrow> 30000 | Some t \<Rightarrow> t,
                                  case lv' of None \<Rightarrow> ''processed'' | Some l \<Rightarrow> l)] \<and>
            (lpc T = Sleeping \<and> done_flag T = Some True \<longrightarrow>
               lpc T' = Exited \<and> trace T' = trace T))"
proof (intro conjI allI impI)
  fix raw txid
  assume st: "sendTransaction_starts env tx payer signers h = Some (raw, txid)"
  show "awaited (trace S) = [(txid, case to of None \<Rightarrow> 30000 | Some t \<Rightarrow> t,
                              case lv of None \<Rightarrow> ''processed'' | Some l \<Rightarrow> l)]"
    unfolding assms(1) by (rule sendTransaction_awaited [OF st])
  assume sl: "lpc S = Sleeping"
  have "S' = broadcast_wake 2000 (double_div (case to of None \<Rightarrow> 30000 | Some t \<Rightarrow> t) 1000)
      raw (getUnixTs (startClock env)) (getUnixTs now) S"
    unfolding assms(1,2) by (rule sendTransaction_wake_started [OF st])
  with sl
  show "if done_flag S = Some False \<and>
           double_sub (getUnixTs now) (getUnixTs (startClock env))
             < double_div (case to of None \<Rightarrow> 30000 | Some t \<Rightarrow> t) 1000
        then lpc S' = Sleeping \<and>
             trace S' = trace S @ [SendRawTransaction raw True, Sleep 2000]
        else lpc S' = Exited \<and> trace S' = trace S"
    by (simp add: broadcast_wake_def)
next
  fix raw txid
  assume st: "sendSignedTransaction_starts env' tx' h' = Some (raw, txid)"
  show "awaited (trace T) = [(txid, case to' of None \<Rightarrow> 30000 | Some t \<Rightarrow> t,
                              case lv' of None \<Rightarrow> ''processed'' | Some l \<Rightarrow> l)]"
    unfolding assms(3) by (rule sendSignedTransaction_awaited [OF st])
  assume a: "lpc T = Sleeping \<and> done_flag T = Some True"
  have "T' = broadcast_wake 500 (case to' of None \<Rightarrow> 30000 | Some t \<Rightarrow> t)
      raw (getUnixTs (startClock env')) (getUnixTs now') T"
    unfolding assms(3,4) by (rule sendSignedTransaction_wake_started [OF st])
  with a show "lpc T' = Exited" and "trace T' = trace T"
    by (simp_all add: broadcast_wake_def)
qed

theorem loop_stops_on_flag_or_clock_witness:
  "sendTransaction_starts rounding_env 0 (Account example_account) [] example_heap
     = Some ([2], ''sig'') \<and>
   awaited (trace (rounding_run [])) = [(''sig'', 1100, ''processed'')] \<and>
   lpc (rounding_run []) = Sleeping \<and> done_flag (rounding_run []) = Some False \<and>
   double_sub (getUnixTs 1700000001100) (getUnixTs (startClock rounding_env))
     < double_div 1100 1000 \<and>
   lpc (rounding_run ([] @ [LoopWake 1700000001100])) = Sleeping \<and>
   trace (rounding_run ([] @ [LoopWake 1700000001100]))
     = trace (rounding_run []) @ [SendRawTransaction [2] True, Sleep 2000] \<and>
   sendSignedTransaction_starts confirming_env 0 example_heap = Some ([0], ''sig'') \<and>
   awaited (trace (confirmed_run [MainResume])) = [(''sig'', 30000, ''processed'')] \<and>
   lpc (confirmed_run [MainResume]) = Sleeping \<and>
   done_flag (confirmed_run [MainResume]) = Some True \<and>
   lpc (confirmed_run ([MainResume] @ [LoopWake 500])) = Exited"
  using loop_stops_on_flag_or_clock [OF refl refl refl refl, of rounding_env 0
      "Account example_account" "[]" example_heap "Some 1100" None None "[]" 1700000001100
      confirming_env 0 example_heap None None "[MainResume]" 500,
      folded rounding_run_def confirmed_run_def]
  by (simp add: example_starts rounding_run_state confirmed_run_state rounding_values
        rounding_env_clock)

text \<open>
  C6. Every send of a submission, the first one and every resend of the loop, carries
  the bytes of the one serialization made after signing; under every schedule the
  transaction object is as it was right after the first send (no further \<open>sign\<close> or
  \<open>partialSign\<close> call, the same \<open>recentBlockhash\<close>), and no further signing request
  goes to the wallet.
\<close>

theorem every_resend_is_the_serialized_transaction:
  "resends_serialized_bytes env tx
     (sendTransaction env tx payer signers to lv cb [] h)
     (sendTransaction env tx payer signers to lv cb ticks h) \<and>
   resends_serialized_bytes env' tx'
     (sendSignedTransaction env' tx' to' lv' [] h')
     (sendSignedTransaction env' tx' to' lv' ticks' h')"
  unfolding resends_serialized_bytes_def
  using outcome_sends [OF sendTransaction_outcome [of env tx payer signers to lv cb ticks h]]
    outcome_sends [OF sendSignedTransaction_outcome [of env' tx' to' lv' ticks' h']]
    sendTransaction_heap [of env tx payer signers to lv cb ticks h]
    sendTransaction_wallet_sign [of env tx payer signers to lv cb ticks h]
  by (simp add: sendSignedTransaction_heap sendSignedTransaction_wallet_sign)

theorem every_resend_is_the_serialized_transaction_witness:
  "SendRawTransaction [2] True \<in> set (trace example_run) \<and>
   serialize example_env
     (heap (sendTransaction example_env 0 (Account example_account) [] None None None []
              example_heap) 0) = Inr [2]"
  using every_resend_is_the_serialized_transaction [of example_env 0 "Account example_account"
      "[]" None None None example_heap example_ticks example_env 0 None None example_heap "[]",
      folded example_run_def]
  by (auto simp: resends_serialized_bytes_def example_run_trace)



text \<open>
  C10. On the wallet path the object the wallet returns is discarded:
  \<open>sendTransaction\<close> does not read the result of \<open>signTransaction\<close> and serializes
  the object it was given. So a wallet returning any other object gives the same run;
  the store is the one the wallet left; every send carries the serialization of the
  original object as the wallet left it, which holds the wallet's signature only if the
  wallet wrote it into that object; and if that object does not serialize, the call
  throws and nothing is sent.
\<close>

theorem wallet_result_is_discarded:
  assumes "getRecentBlockhash env = Inr bh" and "payer_connected payer"
    and "wallet_signTransaction env (prepare_transaction bh payer signers tx h) tx = (Inr r, h')"
    and "S = sendTransaction env tx payer signers to lv cb ticks h"
  shows "sendTransaction
           (env\<lparr>wallet_signTransaction := returning r' (wallet_signTransaction env)\<rparr>)
           tx payer signers to lv cb ticks h = S \<and>
         heap S = h' \<and>
         (\<forall>b f. SendRawTransaction b f \<in> set (trace S) \<longrightarrow> serialize env (h' tx) = Inr b) \<and>
         (\<forall>e. serialize env (h' tx) = Inl e \<longrightarrow>
              mpc S = Threw e \<and> filter is_send (trace S) = [])"
proof -
  have sg: "signTransaction env tx payer signers h =
              (Inr (Some r), h', [GetRecentBlockhash None, WalletSignTransaction tx])"
    using assms(1-3) by (simp add: signTransaction_def)
  have hp: "heap S = h'"
    unfolding assms(4) by (rule sendTransaction_heap_signed [OF sg])
  have sends: "\<forall>b f. SendRawTransaction b f \<in> set (trace S) \<longrightarrow> serialize env (h' tx) = Inr b"
    using outcome_sends [OF sendTransaction_outcome [of env tx payer signers to lv cb ticks h]]
      hp assms(4)
    by blast
  have "mpc S = Threw e \<and> filter is_send (trace S) = []" if "serialize env (h' tx) = Inl e" for e
    using sendTransaction_unserializable [OF sg that, of to lv cb ticks] assms(4) by simp
  with hp sends show ?thesis
    by (simp add: assms(4) sendTransaction_ignores_returned_object)
qed

theorem wallet_result_is_discarded_witness:
  "getRecentBlockhash example_env = Inr ''blockhash'' \<and>
   payer_connected (WalletAdapter ''wallet'' True) \<and>
   fst (wallet_signTransaction example_env
          (prepare_transaction ''blockhash'' (WalletAdapter ''wallet'' True) [] 0 example_heap) 0)
     = Inr 1 \<and>
   SendRawTransaction [1] True \<in> set (trace wallet_run) \<and>
   serialize example_env (heap wallet_run 0) = Inr [1] \<and>
   serialize example_env (heap wallet_run 1) = Inr [2]"
  using wallet_result_is_discarded [where env = example_env and bh = "''blockhash''"
      and payer = "WalletAdapter ''wallet'' True" and signers = "[]" and tx = 0
      and h = example_heap and r = 1 and S = wallet_run and to = None and lv = None and cb = None
      and ticks = example_ticks
      and h' = "snd (wallet_signTransaction example_env
          (prepare_transaction ''blockhash'' (WalletAdapter ''wallet'' True) [] 0 example_heap) 0)"]
  by (simp add: wallet_run_def [symmetric] wallet_run_state)
     (auto simp: example_env_def wallet_run_state prepare_transaction_def call_method_def
        example_heap_def)

text \<open>
  C7. For every signing call exactly one of two paths runs: if the payer is an external
  wallet, the final signing step is delegated to the wallet after the partial signatures
  of the additional signers have been attached; otherwise the payer and the additional
  signers sign locally. \<open>signTransaction\<close> does not test what the payer is but
  \<open>payer?.connected\<close>: for a wallet adapter that is not connected it never makes a
  request to the wallet, whatever the transaction and the signers, and calls
  \<open>transaction.sign\<close> with the wallet object as the first signer, which the library
  refuses; \<open>sendTransaction\<close> with that payer throws before anything is sent.
  \<open>signTransactions\<close> tests \<open>payer instanceof Account\<close> and hands the
  transactions to any wallet, connected or not, once the blockhash has arrived. Its local path in turn passes
  an absent \<open>signers\<close> on to \<open>sign\<close> as \<open>undefined\<close>: the first transaction
  listed without signers makes \<open>sign\<close> throw, and the transactions after it are not
  signed.
\<close>

theorem disconnected_wallet_signs_locally:
  "filter is_wallet_sign
     (snd (snd (signTransaction env tx (WalletAdapter pk False) signers h))) = [] \<and>
   filter is_wallet_sign
     (snd (snd (signTransactions env tas (WalletAdapter pk c) h))) =
     (case getRecentBlockhash env of
        Inl e \<Rightarrow> []
      | Inr blockhash \<Rightarrow> [WalletSignAllTransactions (map fst tas)]) \<and>
   signTransaction example_env 0 disconnected_wallet [] example_heap =
     (Inl (Thrown False ''TypeError''),
      fst (snd (signTransaction example_env 0 disconnected_wallet [] example_heap)),
      [GetRecentBlockhash None]) \<and>
   calls (fst (snd (signTransaction example_env 0 disconnected_wallet [] example_heap)) 0)
     = [SetSigners [''wallet''], Sign [Some disconnected_wallet]] \<and>
   mpc (sendTransaction example_env 0 disconnected_wallet [] None None None example_ticks
          example_heap) = Threw (Thrown False ''TypeError'') \<and>
   trace (sendTransaction example_env 0 disconnected_wallet [] None None None example_ticks
            example_heap) = [GetRecentBlockhash None] \<and>
   snd (snd (signTransactions example_env [(0, Some [])] disconnected_wallet example_heap))
     = [GetRecentBlockhash (Some ''max''), WalletSignAllTransactions [0]] \<and>
   fst (signTransactions example_env [(0, Some [])] disconnected_wallet example_heap)
     = Inr (Some [0]) \<and>
   fst (signTransactions example_env [(0, None), (1, None)] (Account example_account)
          example_heap) = Inl (Thrown False ''TypeError'') \<and>
   calls (fst (snd (signTransactions example_env [(0, None), (1, None)]
                      (Account example_account) example_heap)) 0)
     = [SetSigners [''signer''], Sign [Some (Account example_account), None]] \<and>
   calls (fst (snd (signTransactions example_env [(0, None), (1, None)]
                      (Account example_account) example_heap)) 1)
     = [SetSigners [''signer'']]"
proof -
  have "filter is_wallet_sign
          (snd (snd (signTransaction env tx (WalletAdapter pk False) signers h))) = []"
    by (simp add: signTransaction_def Let_def split: sum.splits option.splits)
  moreover have "filter is_wallet_sign
          (snd (snd (signTransactions env tas (WalletAdapter pk c) h))) =
          (case getRecentBlockhash env of
             Inl e \<Rightarrow> []
           | Inr blockhash \<Rightarrow> [WalletSignAllTransactions (map fst tas)])"
    by (simp add: signTransactions_def Let_def split: sum.splits prod.splits)
  ultimately show ?thesis
    by (simp add: disconnected_wallet_def signTransactions_def eval_defs)
qed

text \<open>
  C2, as claimed: the batch returns a mapping from input index to result or error, and
  one transaction's failure does not affect the results of the sibling slots.
  \<open>sendTransactions\<close> returns \<open>Promise.all\<close> of the calls, typed
  \<open>Promise<TransactionSignature[]>\<close>: in a batch of three whose second transaction
  fails on chain, the first and the third call return their transaction ids, and the
  batch is rejected with the second call's error; the ids are not delivered.
\<close>

theorem batch_rejects_when_one_slot_fails:
  "map_option (map mpc \<circ> fst) example_batch =
     Some [Returned ''sig'', Threw (Error ''Transaction failed: insufficient funds''),
           Returned ''sig''] \<and>
   map_option snd example_batch
     = Some (Rejected (Error ''Transaction failed: insufficient funds''))"
  by (simp add: example_batch_value batch_slot_mpc)

text \<open>
  C2, amended: for a batch of N different transactions, with one run for each,
  \<open>sendTransactions\<close> starts N submissions, slot \<open>i\<close> being \<open>sendTransaction\<close> on the \<open>i\<close>-th transaction with the
  batch's payer, signers, timeout and confirmation level; what a slot does is not changed
  by what the endpoint answers to its siblings, so a failure cancels no sibling. With a
  payer that signs locally a slot reads and writes no object of the store but its own
  transaction: run from any store holding the same transaction it does the same, and it
  leaves every other object as it found it. The results are combined by \<open>Promise.all\<close>: the batch is rejected with the error of the
  first slot to fail, whatever the other slots return; while no slot has failed it is
  pending until every slot has returned, and then fulfilled with the list of the N
  transaction ids in input order. So a fulfilled batch means that every slot returned
  the id at its index, and a rejected batch carries the error one of its slots threw.
\<close>

theorem batch_fails_as_a_whole:
  "(sendTransactions runs order txs payer signers to lv h \<noteq> None
      \<longleftrightarrow> distinct txs \<and> length runs = length txs) \<and>
   (\<forall>slots result.
      sendTransactions runs order txs payer signers to lv h = Some (slots, result) \<longrightarrow>
      length slots = length txs \<and>
      (\<forall>i<length txs.
         slots ! i = sendTransaction (fst (runs ! i)) (txs ! i) payer signers
                       (Some (case to of None \<Rightarrow> 30000 | Some t \<Rightarrow> t))
                       (Some (case lv of None \<Rightarrow> ''confirmed'' | Some l \<Rightarrow> l))
                       None (snd (runs ! i)) h) \<and>
      (\<forall>runs' order' slots' result' i.
         sendTransactions runs' order' txs payer signers to lv h = Some (slots', result') \<and>
         i < length txs \<and> runs' ! i = runs ! i
         \<longrightarrow> slots' ! i = slots ! i) \<and>
      (\<forall>pre i post e.
         order = pre @ i # post \<and> i < length slots \<and> mpc (slots ! i) = Threw e \<and>
         (\<forall>j\<in>set pre. j < length slots \<longrightarrow> \<not> threw (mpc (slots ! j)))
         \<longrightarrow> result = Rejected e) \<and>
      ((\<forall>j\<in>set order. j < length slots \<longrightarrow> \<not> threw (mpc (slots ! j)))
         \<longrightarrow> result = (if \<forall>i<length slots. i \<in> set order \<and> returned (mpc (slots ! i))
                       then Fulfilled (map txid_of slots) else Pending)) \<and>
      (\<forall>ids. result = Fulfilled ids \<longrightarrow>
         length ids = length txs \<and>
         (\<forall>i<length slots. i \<in> set order \<and> mpc (slots ! i) = Returned (ids ! i))) \<and>
      (\<forall>e. result = Rejected e \<longrightarrow>
         (\<exists>i\<in>set order. i < length slots \<and> mpc (slots ! i) = Threw e)) \<and>
      (\<not> payer_connected payer \<longrightarrow>
         (\<forall>i<length txs.
            (\<forall>h'. h' (txs ! i) = h (txs ! i) \<longrightarrow>
               trace (slot_call runs txs payer signers to lv h' i) = trace (slots ! i) \<and>
               mpc (slot_call runs txs payer signers to lv h' i) = mpc (slots ! i) \<and>
               done_flag (slot_call runs txs payer signers to lv h' i)
                 = done_flag (slots ! i) \<and>
               lpc (slot_call runs txs payer signers to lv h' i) = lpc (slots ! i) \<and>
               heap (slot_call runs txs payer signers to lv h' i) (txs ! i)
                 = heap (slots ! i) (txs ! i)) \<and>
            (\<forall>r. r \<noteq> txs ! i \<longrightarrow> heap (slots ! i) r = h r))))"
proof -
  have tot: "sendTransactions runs order txs payer signers to lv h \<noteq> None
          \<longleftrightarrow> distinct txs \<and> length runs = length txs"
    by (simp add: sendTransactions_def Let_def)
  have main: "length slots = length txs \<and>
        (\<forall>i<length txs.
           slots ! i = sendTransaction (fst (runs ! i)) (txs ! i) payer signers
                         (Some (case to of None \<Rightarrow> 30000 | Some t \<Rightarrow> t))
                         (Some (case lv of None \<Rightarrow> ''confirmed'' | Some l \<Rightarrow> l))
                         None (snd (runs ! i)) h) \<and>
        (\<forall>runs' order' slots' result' i.
           sendTransactions runs' order' txs payer signers to lv h = Some (slots', result') \<and>
           i < length txs \<and> runs' ! i = runs ! i
           \<longrightarrow> slots' ! i = slots ! i) \<and>
        (\<forall>pre i post e.
           order = pre @ i # post \<and> i < length slots \<and> mpc (slots ! i) = Threw e \<and>
           (\<forall>j\<in>set pre. j < length slots \<longrightarrow> \<not> threw (mpc (slots ! j)))
           \<longrightarrow> result = Rejected e) \<and>
        ((\<forall>j\<in>set order. j < length slots \<longrightarrow> \<not> threw (mpc (slots ! j)))
           \<longrightarrow> result = (if \<forall>i<length slots. i \<in> set order \<and> returned (mpc (slots ! i))
                         then Fulfilled (map txid_of slots) else Pending)) \<and>
        (\<forall>ids. result = Fulfilled ids \<longrightarrow>
           length ids = length txs \<and>
           (\<forall>i<length slots. i \<in> set order \<and> mpc (slots ! i) = Returned (ids ! i))) \<and>
        (\<forall>e. result = Rejected e \<longrightarrow>
           (\<exists>i\<in>set order. i < length slots \<and> mpc (slots ! i) = Threw e)) \<and>
        (\<not> payer_connected payer \<longrightarrow>
           (\<forall>i<length txs.
              (\<forall>h'. h' (txs ! i) = h (txs ! i) \<longrightarrow>
                 trace (slot_call runs txs payer signers to lv h' i) = trace (slots ! i) \<and>
                 mpc (slot_call runs txs payer signers to lv h' i) = mpc (slots ! i) \<and>
                 done_flag (slot_call runs txs payer signers to lv h' i)
                   = done_flag (slots ! i) \<and>
                 lpc (slot_call runs txs payer signers to lv h' i) = lpc (slots ! i) \<and>
                 heap (slot_call runs txs payer signers to lv h' i) (txs ! i)
                   = heap (slots ! i) (txs ! i)) \<and>
              (\<forall>r. r \<noteq> txs ! i \<longrightarrow> heap (slots ! i) r = h r)))"
    if assms: "sendTransactions runs order txs payer signers to lv h = Some (slots, result)"
    for slots result
  proof (intro conjI allI impI)
    from assms have len: "length slots = length txs"
      and nth: "\<And>i. i < length txs \<Longrightarrow>
                  slots ! i = sendTransaction (fst (runs ! i)) (txs ! i) payer signers
                            (Some (case to of None \<Rightarrow> 30000 | Some t \<Rightarrow> t))
                            (Some (case lv of None \<Rightarrow> ''confirmed'' | Some l \<Rightarrow> l))
                            None (snd (runs ! i)) h"
      and res: "result = promise_all (length slots) (settlements slots order)"
      unfolding sendTransactions_Some by simp_all
    show "length slots = length txs" by (rule len)
    {
      fix i assume "i < length txs"
      then show "slots ! i = sendTransaction (fst (runs ! i)) (txs ! i) payer signers
                            (Some (case to of None \<Rightarrow> 30000 | Some t \<Rightarrow> t))
                            (Some (case lv of None \<Rightarrow> ''confirmed'' | Some l \<Rightarrow> l))
                            None (snd (runs ! i)) h"
        by (rule nth)
    }
    {
      fix runs' order' slots' result' i
      assume a: "sendTransactions runs' order' txs payer signers to lv h = Some (slots', result') \<and>
                 i < length txs \<and> runs' ! i = runs ! i"
      then have "slots' ! i = sendTransaction (fst (runs' ! i)) (txs ! i) payer signers
                            (Some (case to of None \<Rightarrow> 30000 | Some t \<Rightarrow> t))
                            (Some (case lv of None \<Rightarrow> ''confirmed'' | Some l \<Rightarrow> l))
                            None (snd (runs' ! i)) h"
        unfolding sendTransactions_Some by simp
      with a nth [of i] show "slots' ! i = slots ! i" by simp
    }
    {
      fix pre i post e
      assume "order = pre @ i # post \<and> i < length slots \<and> mpc (slots ! i) = Threw e \<and>
              (\<forall>j\<in>set pre. j < length slots \<longrightarrow> \<not> threw (mpc (slots ! j)))"
      then show "result = Rejected e"
        unfolding res by (intro batch_first_rejection [of order pre i post]) blast+
    }
    {
      assume "\<forall>j\<in>set order. j < length slots \<longrightarrow> \<not> threw (mpc (slots ! j))"
      then show "result = (if \<forall>i<length slots. i \<in> set order \<and> returned (mpc (slots ! i))
                            then Fulfilled (map txid_of slots) else Pending)"
        unfolding res by (rule batch_no_rejection)
    }
    {
      fix ids assume f: "result = Fulfilled ids"
      note only = batch_fulfilled_only [OF f [unfolded res]]
      from only len show "length ids = length txs" by simp
      fix i assume "i < length slots"
      with only show "i \<in> set order" and "mpc (slots ! i) = Returned (ids ! i)" by blast+
    }
    {
      fix e assume "result = Rejected e"
      from batch_rejected_only [OF this [unfolded res]]
      show "\<exists>i\<in>set order. i < length slots \<and> mpc (slots ! i) = Threw e"
        by auto
    }
    {
      fix i assume local: "\<not> payer_connected payer" and i: "i < length txs"
      {
        fix h' assume same: "h' (txs ! i) = h (txs ! i)"
        from sendTransaction_local(1) [where h' = h' and h = h and tx = "txs ! i", OF local same]
        obtain g where "g (txs ! i) = heap (slots ! i) (txs ! i)"
          and "slot_call runs txs payer signers to lv h' i = (slots ! i)\<lparr>heap := g\<rparr>"
          unfolding slot_call_def nth [OF i] by blast
        then show "trace (slot_call runs txs payer signers to lv h' i) = trace (slots ! i)"
          and "mpc (slot_call runs txs payer signers to lv h' i) = mpc (slots ! i)"
          and "done_flag (slot_call runs txs payer signers to lv h' i) = done_flag (slots ! i)"
          and "lpc (slot_call runs txs payer signers to lv h' i) = lpc (slots ! i)"
          and "heap (slot_call runs txs payer signers to lv h' i) (txs ! i)
                 = heap (slots ! i) (txs ! i)"
          by simp_all
      }
      fix r assume "r \<noteq> txs ! i"
      from sendTransaction_local(2) [where h' = h and h = h and tx = "txs ! i" and r = r,
          OF local refl this]
      show "heap (slots ! i) r = h r"
        unfolding nth [OF i] .
    }
  qed
  show ?thesis
    by (rule conjI [OF tot]) (intro allI impI, erule main)
qed

theorem batch_fails_as_a_whole_witness:
  "example_batch =
     Some ([batch_slot confirming_env 0 [MainResume],
            batch_slot example_env 1 [MainResume, MainResume],
            batch_slot confirming_env 2 [MainResume]],
           Rejected (Error ''Transaction failed: insufficient funds'')) \<and>
   [0, 1, 2] = [0] @ 1 # [2::nat] \<and>
   mpc (batch_slot example_env 1 [MainResume, MainResume])
     = Threw (Error ''Transaction failed: insufficient funds'') \<and>
   \<not> threw (mpc (batch_slot confirming_env 0 [MainResume])) \<and>
   pending_batch =
     Some ([batch_slot confirming_env 0 [MainResume], batch_slot example_env 1 [MainResume]],
           Pending) \<and>
   \<not> threw (mpc (batch_slot example_env 1 [MainResume])) \<and>
   \<not> returned (mpc (batch_slot example_env 1 [MainResume])) \<and>
   fulfilled_batch =
     Some ([batch_slot confirming_env 0 [MainResume], batch_slot confirming_env 1 [MainResume]],
           Fulfilled [''sig'', ''sig'']) \<and>
   mpc (batch_slot confirming_env 1 [MainResume]) = Returned ([''sig'', ''sig''] ! 1) \<and>
   \<not> payer_connected (Account example_account) \<and>
   busy_heap ([0, 1, 2] ! 0) = example_heap ([0, 1, 2] ! 0) \<and>
   mpc (slot_call [(confirming_env, [MainResume]), (example_env, [MainResume, MainResume]),
                   (confirming_env, [MainResume])] [0, 1, 2] (Account example_account) []
          None None busy_heap 0) = Returned ''sig'' \<and>
   heap (batch_slot confirming_env 0 [MainResume]) 1 = example_heap 1"
proof -
  note r = batch_fails_as_a_whole [THEN conjunct2, rule_format,
      OF example_batch_value [unfolded example_batch_def]]
  note p = batch_fails_as_a_whole [THEN conjunct2, rule_format,
      OF pending_batch_value [unfolded pending_batch_def]]
  note f = batch_fails_as_a_whole [THEN conjunct2, rule_format,
      OF fulfilled_batch_value [unfolded fulfilled_batch_def]]
  from r [THEN conjunct2, THEN conjunct2, THEN conjunct2, THEN conjunct1, rule_format,
      of "[0]" 1 "[2]" "Error ''Transaction failed: insufficient funds''"]
  have r1: "mpc (batch_slot example_env 1 [MainResume, MainResume])
              = Threw (Error ''Transaction failed: insufficient funds'') \<and>
            \<not> threw (mpc (batch_slot confirming_env 0 [MainResume]))"
    by (simp add: batch_slot_mpc)
  from p [THEN conjunct2, THEN conjunct2, THEN conjunct2, THEN conjunct2, THEN conjunct1]
  have p1: "\<not> threw (mpc (batch_slot example_env 1 [MainResume])) \<and>
            \<not> returned (mpc (batch_slot example_env 1 [MainResume]))"
    using batch_slot_pending by (cases "mpc (batch_slot example_env 1 [MainResume])") simp_all
  from f [THEN conjunct2, THEN conjunct2, THEN conjunct2, THEN conjunct2, THEN conjunct2,
      THEN conjunct1, rule_format, OF refl, THEN conjunct2, rule_format, of 1]
  have f1: "mpc (batch_slot confirming_env 1 [MainResume]) = Returned ([''sig'', ''sig''] ! 1)"
    by simp
  have b: "busy_heap ([0, 1, 2] ! 0) = example_heap ([0, 1, 2] ! 0)"
    by (simp add: busy_heap_def)
  note l = r [THEN conjunct2, THEN conjunct2, THEN conjunct2, THEN conjunct2, THEN conjunct2,
      THEN conjunct2, THEN conjunct2, rule_format, of 0]
  from l [THEN conjunct1, rule_format, where h' = busy_heap] b
  have l1: "mpc (slot_call [(confirming_env, [MainResume]),
                            (example_env, [MainResume, MainResume]),
                            (confirming_env, [MainResume])] [0, 1, 2]
                   (Account example_account) [] None None busy_heap 0) = Returned ''sig''"
    by (simp add: batch_slot_mpc)
  from l [THEN conjunct2, rule_format, of 1]
  have l2: "heap (batch_slot confirming_env 0 [MainResume]) 1 = example_heap 1"
    by simp
  from r1 p1 f1 b l1 l2 show ?thesis
    by (simp add: example_batch_value pending_batch_value fulfilled_batch_value)
qed

end
